theory Spec2Isabelle
  imports Complex_Main
begin

section \<open>Numbers\<close>

text \<open>
  A number of JavaScript other than \<open>NaN\<close>: a double, which is a rational, or an
  infinity. The two zeros are not told apart: none of the operations below does.
\<close>

datatype jsnum = Finite rat | PosInfinity | NegInfinity

abbreviation ofInt :: "int \<Rightarrow> jsnum" where
  "ofInt k \<equiv> Finite (of_int k)"

text \<open>\<open>num *= -1\<close>, and the comparisons \<open>x < c\<close> and \<open>x > c\<close> with an integer.\<close>

definition negate :: "jsnum \<Rightarrow> jsnum" where
  "negate x = (case x of Finite q \<Rightarrow> Finite (- q) | PosInfinity \<Rightarrow> NegInfinity
               | NegInfinity \<Rightarrow> PosInfinity)"

definition isBelow :: "jsnum \<Rightarrow> int \<Rightarrow> bool" where
  "isBelow x c = (case x of Finite q \<Rightarrow> q < of_int c | PosInfinity \<Rightarrow> False
                  | NegInfinity \<Rightarrow> True)"

definition isAbove :: "jsnum \<Rightarrow> int \<Rightarrow> bool" where
  "isAbove x c = (case x of Finite q \<Rightarrow> of_int c < q | PosInfinity \<Rightarrow> True
                  | NegInfinity \<Rightarrow> False)"

text \<open>
  \<open>x | 0\<close>, the conversion \<open>ToInt32\<close>: an infinity gives 0; a finite number is truncated
  toward zero, and the integer is wrapped to the signed 32-bit range.
\<close>

definition trunc :: "rat \<Rightarrow> int" where
  "trunc q = (if q < 0 then - \<lfloor>- q\<rfloor> else \<lfloor>q\<rfloor>)"

definition toInt32 :: "jsnum \<Rightarrow> int" where
  "toInt32 x =
     (case x of
        Finite q \<Rightarrow> (trunc q + 2147483648) mod 4294967296 - 2147483648
      | PosInfinity \<Rightarrow> 0
      | NegInfinity \<Rightarrow> 0)"

text \<open>
  The double nearest to a positive rational, ties to the even one, as the conversion of
  a numeric text rounds: the doubles from \<open>2^e\<close> to \<open>2^(e+1)\<close> are the multiples of
  \<open>2^(e-52)\<close>, for \<open>e\<close> from -1022 on, and what rounds to \<open>2^1024\<close> or more is infinite.
\<close>

function bitLength :: "int \<Rightarrow> int" where
  "bitLength n = (if n \<le> 0 then 0 else 1 + bitLength (n div 2))"
  by auto
termination
  by (relation "measure nat") auto

definition pow2 :: "int \<Rightarrow> rat" where
  "pow2 e = (if 0 \<le> e then 2 ^ nat e else 1 / 2 ^ nat (- e))"

definition floorLog2 :: "rat \<Rightarrow> int" where
  "floorLog2 q =
     (let k = bitLength (fst (quotient_of q)) - bitLength (snd (quotient_of q))
      in if pow2 k \<le> q then k else k - 1)"

definition roundHalfEven :: "rat \<Rightarrow> int" where
  "roundHalfEven x =
     (let f = \<lfloor>x\<rfloor>; d = x - of_int f
      in if d < 1 / 2 then f else if 1 / 2 < d then f + 1 else if even f then f else f + 1)"

definition toDouble :: "rat \<Rightarrow> jsnum" where
  "toDouble q =
     (if q \<le> 0 then Finite 0
      else
        (let e = max (floorLog2 q) (- 1022); ulp = pow2 (e - 52);
             r = of_int (roundHalfEven (q / ulp)) * ulp
         in if r \<noteq> 0 \<and> 1024 \<le> floorLog2 r then PosInfinity else Finite r))"

text \<open>
  \<open>Number(text)\<close>, the conversion of a text to a number, \<open>None\<close> for \<open>NaN\<close>. White space
  around the text is dropped; the empty text is 0; the text is then a binary, octal or
  hexadecimal integer with its prefix, or a decimal literal with an optional sign: the
  word \<open>Infinity\<close>, or digits with an optional fraction and an optional exponent, at
  least one digit before the exponent. The value is the double nearest to the
  mathematical value of the literal. A character is a code unit below 256, so the white
  space is the tabulations, the line ends, the space and the no-break space.
\<close>

definition isDigit :: "char \<Rightarrow> bool" where
  "isDigit c = ((48::nat) \<le> of_char c \<and> of_char c \<le> (57::nat))"

definition strWhiteSpace :: "char \<Rightarrow> bool" where
  "strWhiteSpace c = (of_char c \<in> {9, 10, 11, 12, 13, 32, 160 :: nat})"

definition trim :: "string \<Rightarrow> string" where
  "trim s = rev (dropWhile strWhiteSpace (rev (dropWhile strWhiteSpace s)))"

definition digitValue :: "char \<Rightarrow> int option" where
  "digitValue c =
     (let n = int (of_char c)
      in if 48 \<le> n \<and> n \<le> 57 then Some (n - 48)
         else if 97 \<le> n \<and> n \<le> 102 then Some (n - 87)
         else if 65 \<le> n \<and> n \<le> 70 then Some (n - 55)
         else None)"

definition digitsValue :: "int \<Rightarrow> string \<Rightarrow> rat option" where
  "digitsValue b s =
     (if s \<noteq> [] \<and> list_all (\<lambda>c. case digitValue c of Some d \<Rightarrow> d < b | None \<Rightarrow> False) s
      then Some (of_int (foldl (\<lambda>n c. b * n + (case digitValue c of Some d \<Rightarrow> d | None \<Rightarrow> 0))
                           0 s))
      else None)"

definition pow10 :: "int \<Rightarrow> rat" where
  "pow10 e = (if 0 \<le> e then 10 ^ nat e else 1 / 10 ^ nat (- e))"

definition exponentPart :: "string \<Rightarrow> int option" where
  "exponentPart r =
     (if r = [] then Some 0
      else if hd r = CHR ''e'' \<or> hd r = CHR ''E'' then
        (let t = tl r;
             signed = (t \<noteq> [] \<and> (hd t = CHR ''+'' \<or> hd t = CHR ''-''));
             ds = (if signed then tl t else t)
         in case digitsValue 10 ds of
              None \<Rightarrow> None
            | Some n \<Rightarrow> Some (if signed \<and> hd t = CHR ''-'' then - \<lfloor>n\<rfloor> else \<lfloor>n\<rfloor>))
      else None)"

definition strUnsignedDecimal :: "string \<Rightarrow> rat option" where
  "strUnsignedDecimal s =
     (let ip = takeWhile isDigit s; r1 = dropWhile isDigit s;
          dot = (r1 \<noteq> [] \<and> hd r1 = CHR ''.'');
          fp = (if dot then takeWhile isDigit (tl r1) else []);
          r2 = (if dot then dropWhile isDigit (tl r1) else r1)
      in if ip = [] \<and> fp = [] then None
         else
           (case exponentPart r2 of
              None \<Rightarrow> None
            | Some ex \<Rightarrow>
                Some (((case digitsValue 10 ip of Some n \<Rightarrow> n | None \<Rightarrow> 0)
                       + (case digitsValue 10 fp of Some n \<Rightarrow> n | None \<Rightarrow> 0)
                           / 10 ^ length fp) * pow10 ex)))"

definition Number_js :: "string \<Rightarrow> jsnum option" where
  "Number_js s =
     (let t = trim s in
      if t = [] then Some (Finite 0)
      else if take 2 t = ''0x'' \<or> take 2 t = ''0X''
        then map_option toDouble (digitsValue 16 (drop 2 t))
      else if take 2 t = ''0o'' \<or> take 2 t = ''0O''
        then map_option toDouble (digitsValue 8 (drop 2 t))
      else if take 2 t = ''0b'' \<or> take 2 t = ''0B''
        then map_option toDouble (digitsValue 2 (drop 2 t))
      else
        (let neg = (hd t = CHR ''-'');
             u = (if hd t = CHR ''+'' \<or> hd t = CHR ''-'' then tl t else t)
         in if u = ''Infinity'' then Some (if neg then NegInfinity else PosInfinity)
            else
              (case strUnsignedDecimal u of
                 None \<Rightarrow> None
               | Some q \<Rightarrow> Some (if neg then negate (toDouble q) else toDouble q))))"

section \<open>Tokens\<close>

text \<open>
  Modelled from the spec: the class \<open>Token\<close> (src/lib/Token.js is not part of the
  sources). The source reads the properties \<open>index\<close>, \<open>value\<close>, \<open>isSpecial\<close>,
  \<open>isExpression\<close>, \<open>isDayKeyword\<close> of a token and calls \<open>toDayOfWeek()\<close> on it; they
  are the fields of the record. The parser and the compiler below read the fields
  only, so what is proved of them holds whatever the classification of a token is.
\<close>

record Token =
  tindex :: nat
  tvalue :: string
  isSpecial :: bool
  isExpression :: bool
  isDayKeyword :: bool
  toDayOfWeek :: int

text \<open>
  Errors. Every \<open>throw this.syntaxError(message, token)\<close> of the source is the value
  \<open>SyntaxError message token\<close>; the source renders it as the message followed by a
  snippet of the text around the token and a caret line, which is not modelled. A read
  of a property of \<open>undefined\<close> is JavaScript's own \<open>TypeError\<close>.
\<close>

datatype error = SyntaxError string Token | TypeError

definition whitespace :: "char set" where
  "whitespace = {CHR '' '', CHR 0x09, CHR 0x0A, CHR 0x0D}"

definition specials :: "char set" where
  "specials = {CHR ''('', CHR '')'', CHR ''-'', CHR '','', CHR ''!'', CHR ''/'', CHR ''%''}"

definition toLowerCase :: "string \<Rightarrow> string" where
  "toLowerCase s =
     map (\<lambda>c. if (65::nat) \<le> of_char c \<and> of_char c \<le> (90::nat)
              then char_of (of_char c + (32::nat)) else c) s"

text \<open>
  Modelled from the spec: the classification of a token by \<open>Token\<close> (src/lib/Token.js is
  not part of the sources). An expression keyword is one of the field names of the
  grammar or \<open>group\<close>, compared without case; \<open>isSpecial\<close> is set when the token is
  created for one of the special characters.
\<close>

definition expressionKeywords :: "string list" where
  "expressionKeywords =
     [''s'', ''sec'', ''second'', ''seconds'', ''secondofminute'', ''secondsofminute'',
      ''m'', ''min'', ''minute'', ''minutes'', ''minuteofhour'', ''minutesofhour'',
      ''h'', ''hour'', ''hours'', ''hourofday'', ''hoursofday'',
      ''day'', ''days'', ''dow'', ''dayofweek'', ''daysofweek'',
      ''dom'', ''dayofmonth'', ''daysofmonth'',
      ''date'', ''dates'', ''group'']"

text \<open>
  Modelled from the spec: the weekday names of \<open>Token\<close> and their ordinals. The spec
  fixes the ordinals 1 to 7 with Monday 1 and Friday 5; the spellings are an assumption,
  and no property below uses a weekday name.
\<close>

definition dayKeywords :: "(string \<times> int) list" where
  "dayKeywords =
     [(''mon'', 1), (''monday'', 1), (''tue'', 2), (''tuesday'', 2),
      (''wed'', 3), (''wednesday'', 3), (''thu'', 4), (''thursday'', 4),
      (''fri'', 5), (''friday'', 5), (''sat'', 6), (''saturday'', 6),
      (''sun'', 7), (''sunday'', 7)]"

text \<open>
  Modelled from the spec: \<open>new Token(index)\<close> with the value gathered by \<open>tokenize\<close>, and
  \<open>new Token(index, value)\<close> for a special character, told apart by the last argument.
\<close>

definition Token_new :: "nat \<Rightarrow> string \<Rightarrow> bool \<Rightarrow> Token" where
  "Token_new i v special =
     \<lparr> tindex = i, tvalue = v, isSpecial = special,
       isExpression = (\<not> special \<and> toLowerCase v \<in> set expressionKeywords),
       isDayKeyword = (\<not> special \<and> map_of dayKeywords (toLowerCase v) \<noteq> None),
       toDayOfWeek = (case map_of dayKeywords (toLowerCase v) of Some d \<Rightarrow> d | None \<Rightarrow> 0) \<rparr>"

text \<open>
  Modelled from the spec: \<open>Common.daysInMonth\<close> (src/lib/Common.js is not part of the
  sources), the number of days of a zero-indexed month; February counts 29 days. The
  source calls it with \<open>month - 1\<close>, which is \<open>monthBefore\<close>, on a month from 1 to 12, where
  the subtraction is exact. What the function answers on a month with a fraction is not
  known: it is 31 here, the largest answer.
\<close>

definition daysInMonth :: "jsnum \<Rightarrow> int" where
  "daysInMonth m =
     (if m = Finite 1 then 29
      else if m \<in> {Finite 3, Finite 5, Finite 8, Finite 10} then 30 else 31)"

definition monthBefore :: "jsnum \<Rightarrow> jsnum" where
  "monthBefore m = (case m of Finite q \<Rightarrow> Finite (q - 1) | PosInfinity \<Rightarrow> PosInfinity
                    | NegInfinity \<Rightarrow> NegInfinity)"

subsection \<open>tokenize\<close>

text \<open>
  The token being built is the pair of its index and of the characters gathered so far;
  \<open>push\<close> is \<open>if (token.value) tokens.push(token)\<close>.
\<close>

definition push :: "nat \<times> string \<Rightarrow> Token list \<Rightarrow> Token list" where
  "push token tokens =
     (if snd token \<noteq> [] then tokens @ [Token_new (fst token) (snd token) False] else tokens)"

fun tokenize_loop :: "string \<Rightarrow> nat \<Rightarrow> nat \<times> string \<Rightarrow> Token list \<Rightarrow> Token list" where
  "tokenize_loop [] i token tokens = push token tokens"
| "tokenize_loop (c # str) i token tokens =
     (if c \<in> whitespace then tokenize_loop str (i + 1) (i + 1, []) (push token tokens)
      else if c \<in> specials
        then tokenize_loop str (i + 1) (i + 1, []) (push token tokens @ [Token_new i [c] True])
      else tokenize_loop str (i + 1) (fst token, snd token @ [c]) tokens)"

definition tokenize :: "string \<Rightarrow> Token list" where
  "tokenize str = tokenize_loop str 0 (0, []) []"

section \<open>The syntax tree\<close>

text \<open>
  Modelled from the spec: the classes \<open>Argument\<close> and \<open>Range\<close> (src/lib/Argument.js and
  src/lib/Range.js are not part of the sources), from the calls of their constructors
  and the reads of their properties in the source. An \<open>Argument\<close> has a \<open>type\<close> among
  number, range, days, dates and wildcard, and a \<open>value\<close> whose shape the type fixes:
  \<open>buildArgument\<close> builds these five combinations only, so type and value are one
  constructor here. A date is \<open>new Range(month, day)\<close>, read by \<open>month\<close> and \<open>day\<close>: its
  month and day are numbers in an argument, and integers once compiled.
\<close>

datatype 'a date = Date (month: 'a) (day: 'a)

datatype argvalue =
    wildcard
  | number jsnum
  | range jsnum jsnum
  | days jsnum jsnum
  | dates "jsnum date" "jsnum date"

record Argument =
  avalue :: argvalue
  isExclude :: bool
  modulus :: "jsnum option"
  firstToken :: Token

datatype node =
    Expression string "node list" Token
  | Arg Argument

text \<open>\<open>tokens[i]\<close>, which is \<open>undefined\<close> past the end.\<close>

definition tokenAt :: "Token list \<Rightarrow> nat \<Rightarrow> Token option" where
  "tokenAt tokens i = (if i < length tokens then Some (tokens ! i) else None)"

definition ensureToken :: "Token list \<Rightarrow> nat \<Rightarrow> error + Token" where
  "ensureToken tokens i =
     (case tokenAt tokens i of
        Some t \<Rightarrow> Inr t
      | None \<Rightarrow>
          (if tokens = [] then Inl TypeError
           else Inl (SyntaxError ''Unexpected end of format string.'' (last tokens))))"

text \<open>
  The closures \<open>parseNumber\<close> and \<open>parseNumberOrDate\<close> of \<open>buildArgument\<close> share its
  cursor \<open>i\<close> and \<open>t = tokens[i]\<close>: they take the cursor and return it with the result.
\<close>

definition parseNumber :: "Token list \<Rightarrow> nat \<Rightarrow> error + (jsnum \<times> nat)" where
  "parseNumber tokens i =
     (case tokenAt tokens i of
        None \<Rightarrow> Inl TypeError
      | Some t \<Rightarrow>
          (if isSpecial t \<and> tvalue t \<noteq> ''-'' then Inl (SyntaxError ''Unexpected token in argument.'' t)
           else
             (let negative = isSpecial t; i1 = (if negative then i + 1 else i) in
              case tokenAt tokens i1 of
                None \<Rightarrow> Inl TypeError
              | Some t1 \<Rightarrow>
                  (case Number_js (tvalue t1) of
                     None \<Rightarrow> Inl (SyntaxError ''Unknown argument syntax. Expected a number.'' t1)
                   | Some n \<Rightarrow>
                       (case ensureToken tokens (i1 + 1) of
                          Inl e \<Rightarrow> Inl e
                        | Inr _ \<Rightarrow> Inr (if negative then negate n else n, i1 + 1))))))"

text \<open>A bound of a range: a number, or a date.\<close>

datatype 'a bound = Num 'a | MonthDay "'a date"

definition parseNumberOrDate ::
  "Token list \<Rightarrow> Token \<Rightarrow> nat \<Rightarrow> error + (jsnum bound \<times> nat)" where
  "parseNumberOrDate tokens first i =
     (case parseNumber tokens i of
        Inl e \<Rightarrow> Inl e
      | Inr (num, i1) \<Rightarrow>
          (case tokenAt tokens i1 of
             None \<Rightarrow> Inl TypeError
           | Some t \<Rightarrow>
               (if tvalue t \<noteq> ''/'' then Inr (Num num, i1)
                else if isBelow num 1 \<or> isAbove num 12
                  then Inl (SyntaxError ''Invalid Month'' first)
                else
                  (case ensureToken tokens (i1 + 1) of
                     Inl e \<Rightarrow> Inl e
                   | Inr _ \<Rightarrow>
                       (case parseNumber tokens (i1 + 1) of
                          Inl e \<Rightarrow> Inl e
                        | Inr (d, i2) \<Rightarrow>
                            (if isBelow d 1 \<or> isAbove d (daysInMonth (monthBefore num))
                             then Inl (SyntaxError ''Invalid Date'' first)
                             else Inr (MonthDay (Date num d), i2)))))))"

text \<open>
  Lines 157 to 223 of \<open>buildArgument\<close>: the type and value of a literal argument that
  starts at token \<open>i\<close>, with the cursor after it. \<open>literalLow\<close> is the first bound
  (lines 167 to 179) with \<open>isDay\<close>, and \<open>literalRange\<close> the check for a range and the
  value (lines 181 to 222).
\<close>

definition isDate :: "'a bound \<Rightarrow> bool" where
  "isDate b = (case b of MonthDay _ \<Rightarrow> True | Num _ \<Rightarrow> False)"

definition literalLow ::
  "Token list \<Rightarrow> Token \<Rightarrow> nat \<Rightarrow> Token \<Rightarrow> error + (bool \<times> jsnum bound \<times> nat)" where
  "literalLow tokens first i t =
     (if isDayKeyword t
      then (case ensureToken tokens (i + 1) of
              Inl e \<Rightarrow> Inl e
            | Inr _ \<Rightarrow> Inr (True, Num (ofInt (toDayOfWeek t)), i + 1))
      else (case parseNumberOrDate tokens first i of
              Inl e \<Rightarrow> Inl e
            | Inr (low, i1) \<Rightarrow> Inr (False, low, i1)))"

definition literalRange ::
  "Token list \<Rightarrow> Token \<Rightarrow> bool \<Rightarrow> jsnum bound \<Rightarrow> nat \<Rightarrow> error + (argvalue \<times> nat)" where
  "literalRange tokens first isDay low i1 =
     (case tokenAt tokens i1 of
        None \<Rightarrow> Inl TypeError
      | Some t1 \<Rightarrow>
          (if tvalue t1 = ''-'' then
             (case ensureToken tokens (i1 + 1) of
                Inl e \<Rightarrow> Inl e
              | Inr t2 \<Rightarrow>
                  (if isDayKeyword t2 \<and> \<not> isDate low then
                     (case low of
                        Num l \<Rightarrow> Inr (days l (ofInt (toDayOfWeek t2)), i1 + 2)
                      | MonthDay _ \<Rightarrow> Inl TypeError)
                   else
                     (case parseNumberOrDate tokens first (i1 + 1) of
                        Inl e \<Rightarrow> Inl e
                      | Inr (high, i2) \<Rightarrow>
                          (case (low, high) of
                             (MonthDay l, MonthDay h) \<Rightarrow> Inr (dates l h, i2)
                           | (Num l, Num h) \<Rightarrow> Inr (if isDay then days l h else range l h, i2)
                           | _ \<Rightarrow>
                               Inl (SyntaxError ''Cannot mix numeric and date ranges.''
                                      first)))))
           else
             (case low of
                MonthDay l \<Rightarrow> Inr (dates l l, i1)
              | Num l \<Rightarrow> Inr (if isDay then days l l else number l, i1))))"

definition literalValue :: "Token list \<Rightarrow> Token \<Rightarrow> nat \<Rightarrow> error + (argvalue \<times> nat)" where
  "literalValue tokens first i =
     (case tokenAt tokens i of
        None \<Rightarrow> Inl TypeError
      | Some t \<Rightarrow>
          (if tvalue t = ''%'' then Inr (wildcard, i)
           else
             (case literalLow tokens first i t of
                Inl e \<Rightarrow> Inl e
              | Inr (isDay, low, i1) \<Rightarrow> literalRange tokens first isDay low i1)))"

text \<open>Lines 225 to 231: the modulus component after the value.\<close>

definition modulusPart :: "Token list \<Rightarrow> nat \<Rightarrow> error + (jsnum option \<times> nat)" where
  "modulusPart tokens i =
     (case tokenAt tokens i of
        None \<Rightarrow> Inl TypeError
      | Some t \<Rightarrow>
          (if tvalue t = ''%'' then
             (case ensureToken tokens (i + 1) of
                Inl e \<Rightarrow> Inl e
              | Inr _ \<Rightarrow>
                  (case parseNumber tokens (i + 1) of
                     Inl e \<Rightarrow> Inl e
                   | Inr (m, i1) \<Rightarrow> Inr (Some m, i1)))
           else Inr (None, i)))"

definition literalArgument ::
  "Token list \<Rightarrow> Token \<Rightarrow> bool \<Rightarrow> nat \<Rightarrow> error + (Argument \<times> nat)" where
  "literalArgument tokens first excl i =
     (case literalValue tokens first i of
        Inl e \<Rightarrow> Inl e
      | Inr (v, i1) \<Rightarrow>
          (case modulusPart tokens i1 of
             Inl e \<Rightarrow> Inl e
           | Inr (m, i2) \<Rightarrow>
               Inr (\<lparr> avalue = v, isExclude = excl, modulus = m, firstToken = first \<rparr>, i2)))"

subsection \<open>buildArgument and buildExpression\<close>

text \<open>
  Lines 70 to 136 of \<open>buildArgument\<close>: the first token of the argument, whether it is
  excluded, and the cursor with its token after the \<open>!\<close>.
\<close>

definition argumentStart :: "Token list \<Rightarrow> nat \<Rightarrow> error + (Token \<times> bool \<times> nat \<times> Token)" where
  "argumentStart tokens i =
     (case ensureToken tokens i of
        Inl e \<Rightarrow> Inl e
      | Inr first \<Rightarrow>
          (if tvalue first = ''!''
           then (case ensureToken tokens (i + 1) of
                   Inl e \<Rightarrow> Inl e
                 | Inr t \<Rightarrow> Inr (first, True, i + 1, t))
           else Inr (first, False, i, first)))"

text \<open>Lines 157 to 235: a literal argument is pushed to the context.\<close>

definition pushLiteral ::
  "Token list \<Rightarrow> Token \<Rightarrow> bool \<Rightarrow> nat \<Rightarrow> node list \<Rightarrow> error + (nat \<times> node list)" where
  "pushLiteral tokens first excl i context =
     (case literalArgument tokens first excl i of
        Inl e \<Rightarrow> Inl e
      | Inr (a, i2) \<Rightarrow> Inr (i2, context @ [Arg a]))"

text \<open>Lines 245 to 264 of \<open>buildExpression\<close>: the name token and the opening parenthesis.\<close>

definition expressionStart :: "Token list \<Rightarrow> nat \<Rightarrow> error + Token" where
  "expressionStart tokens i =
     (case tokenAt tokens i of
        None \<Rightarrow> Inl TypeError
      | Some cmd \<Rightarrow>
          (case tokenAt tokens (i + 1) of
             None \<Rightarrow> Inl (SyntaxError ''Expression has no opening parenthesis.'' cmd)
           | Some p \<Rightarrow>
               (if tvalue p \<noteq> ''(''
                then Inl (SyntaxError ''Unexpected an opening parenthesis.'' p)
                else Inr cmd)))"

text \<open>
  Lines 278 to 282: the closing parenthesis at the cursor \<open>fst r\<close> where the loop over
  the arguments \<open>snd r\<close> stopped, and the node pushed to the context.
\<close>

definition expressionEnd ::
  "Token list \<Rightarrow> Token \<Rightarrow> node list \<Rightarrow> nat \<times> node list \<Rightarrow> error + (nat \<times> node list)" where
  "expressionEnd tokens cmd context r =
     (case tokenAt tokens (fst r) of
        None \<Rightarrow> Inl (SyntaxError ''Expression is missing a closing parenthesis.'' cmd)
      | Some c \<Rightarrow>
          (if tvalue c \<noteq> '')''
           then Inl (SyntaxError ''Expression is missing a closing parenthesis.'' cmd)
           else Inr (fst r + 1, context @ [Expression (tvalue cmd) (snd r) cmd])))"

text \<open>\<open>if (tokens[i] && tokens[i].value === ',') i++\<close>\<close>

definition skipComma :: "Token list \<Rightarrow> nat \<Rightarrow> nat" where
  "skipComma tokens j = (case tokenAt tokens j of None \<Rightarrow> j | Some c \<Rightarrow> if tvalue c = '','' then j + 1 else j)"

text \<open>
  \<open>buildArgument\<close> and \<open>buildExpression\<close> call each other, and the loop of
  \<open>buildExpression\<close> over the arguments is \<open>buildArguments\<close>. The first parameter bounds
  the depth of the calls; \<open>None\<close> says that the bound was reached. Each of them returns
  the cursor and the context list with what it pushed. With \<open>!\<close> before an expression,
  \<open>tokens[i - 1]\<close> is the first token.
\<close>

function (sequential) buildArgument ::
    "nat \<Rightarrow> Token list \<Rightarrow> nat \<Rightarrow> node list \<Rightarrow> (error + (nat \<times> node list)) option"
  and buildExpression ::
    "nat \<Rightarrow> Token list \<Rightarrow> nat \<Rightarrow> node list \<Rightarrow> (error + (nat \<times> node list)) option"
  and buildArguments ::
    "nat \<Rightarrow> Token list \<Rightarrow> nat \<Rightarrow> node list \<Rightarrow> (error + (nat \<times> node list)) option"
where
  "buildArgument 0 tokens i context = None"
| "buildArgument (Suc n) tokens i context =
     (case argumentStart tokens i of
        Inl e \<Rightarrow> Some (Inl e)
      | Inr (first, excl, i1, t) \<Rightarrow>
          (if isSpecial t \<and> tvalue t = '')'' then Some (Inr (i1, context))
           else if isSpecial t \<and> tvalue t = '','' then Some (Inl (SyntaxError ''Empty argument'' t))
           else if isExpression t then
             (if excl
              then Some (Inl (SyntaxError ''Unexpected token in argument.'' first))
              else buildExpression n tokens i1 context)
           else Some (pushLiteral tokens first excl i1 context)))"
| "buildExpression 0 tokens i context = None"
| "buildExpression (Suc n) tokens i context =
     (case expressionStart tokens i of
        Inl e \<Rightarrow> Some (Inl e)
      | Inr cmd \<Rightarrow>
          (case buildArguments n tokens (i + 2) [] of
             None \<Rightarrow> None
           | Some (Inl e) \<Rightarrow> Some (Inl e)
           | Some (Inr r) \<Rightarrow> Some (expressionEnd tokens cmd context r)))"
| "buildArguments 0 tokens i args = None"
| "buildArguments (Suc n) tokens i args =
     (case tokenAt tokens i of
        None \<Rightarrow> Some (Inr (i, args))
      | Some t \<Rightarrow>
          (if tvalue t = '')'' then Some (Inr (i, args))
           else
             (case buildArgument n tokens i args of
                None \<Rightarrow> None
              | Some (Inl e) \<Rightarrow> Some (Inl e)
              | Some (Inr r) \<Rightarrow>
                  buildArguments n tokens (skipComma tokens (fst r)) (snd r))))"
  by pat_completeness auto
termination
  by (relation "measure (\<lambda>x. case x of Inl a \<Rightarrow> fst a | Inr (Inl a) \<Rightarrow> fst a | Inr (Inr a) \<Rightarrow> fst a)") auto

subsection \<open>buildAbstractSyntaxTree\<close>

function (sequential) buildAbstractSyntaxTree_loop ::
  "nat \<Rightarrow> Token list \<Rightarrow> nat \<Rightarrow> node list \<Rightarrow> (error + node list) option" where
  "buildAbstractSyntaxTree_loop 0 tokens i ast = None"
| "buildAbstractSyntaxTree_loop (Suc n) tokens i ast =
     (case tokenAt tokens i of
        None \<Rightarrow> Some (Inr ast)
      | Some t \<Rightarrow>
          (if isExpression t then
             (case buildExpression n tokens i ast of
                None \<Rightarrow> None
              | Some (Inl e) \<Rightarrow> Some (Inl e)
              | Some (Inr r) \<Rightarrow> buildAbstractSyntaxTree_loop n tokens (fst r) (snd r))
           else if 0 < i \<and> tvalue t = '',''
             then buildAbstractSyntaxTree_loop n tokens (i + 1) ast
           else Some (Inl (SyntaxError ''Unexpected token. Expected a expression.'' t))))"
  by pat_completeness auto
termination
  by (relation "measure fst") auto

text \<open>
  The depth of the calls is below three times the number of tokens: the bound given
  here is never reached (\<open>buildAbstractSyntaxTree_returns\<close>).
\<close>

definition buildAbstractSyntaxTree :: "Token list \<Rightarrow> (error + node list) option" where
  "buildAbstractSyntaxTree tokens =
     buildAbstractSyntaxTree_loop (3 * length tokens + 2) tokens 0 []"

section \<open>Compilation\<close>

text \<open>
  The canonical fields, \<open>propType\<close> in the source, where they are the strings given by
  \<open>propName\<close>. A property of a \<open>RuleGroup\<close> is a field or its \<open>Exclude\<close> list:
  \<open>(p, True)\<close> is the property \<open>propName p + 'Exclude'\<close>.
\<close>

datatype propType = Seconds | Minutes | Hours | DaysOfWeek | DaysOfMonth | Dates

fun propName :: "propType \<Rightarrow> string" where
  "propName Seconds = ''seconds''"
| "propName Minutes = ''minutes''"
| "propName Hours = ''hours''"
| "propName DaysOfWeek = ''daysOfWeek''"
| "propName DaysOfMonth = ''daysOfMonth''"
| "propName Dates = ''dates''"

text \<open>
  Modelled from the spec: the compiled \<open>Range\<close> and the \<open>RuleGroup\<close>
  (src/lib/RuleGroup.js is not part of the sources). In
  \<open>new Range(low, high, split, modulus)\<close> the bounds are numbers, or dates for the
  \<open>dates\<close> field; a \<open>split\<close> or \<open>modulus\<close> that is not given is \<open>False\<close> or \<open>None\<close>. A
  \<open>RuleGroup\<close> is an object whose properties, set by \<open>rule[prop]\<close>, are lists of ranges.
\<close>

record Range =
  low :: "int bound"
  high :: "int bound"
  split :: bool
  rmodulus :: "jsnum option"

definition Range_new :: "int \<Rightarrow> int \<Rightarrow> Range" where
  "Range_new l h = \<lparr> low = Num l, high = Num h, split = False, rmodulus = None \<rparr>"

type_synonym property = "propType \<times> bool"

type_synonym RuleGroup = "property \<rightharpoonup> Range list"

text \<open>\<open>if (!rule[prop]) rule[prop] = []; rule[prop].push(r)\<close>\<close>

definition pushRange :: "RuleGroup \<Rightarrow> property \<Rightarrow> Range \<Rightarrow> RuleGroup" where
  "pushRange rule p r = rule(p \<mapsto> (case rule p of None \<Rightarrow> [] | Some rs \<Rightarrow> rs) @ [r])"

text \<open>The decimal text of an integer, as string concatenation gives it.\<close>

fun showNat :: "nat \<Rightarrow> string" where
  "showNat n =
     (if n < 10 then [char_of (48 + n)] else showNat (n div 10) @ [char_of (48 + n mod 10)])"

definition showInt :: "int \<Rightarrow> string" where
  "showInt x = (if x < 0 then ''-'' @ showNat (nat (- x)) else showNat (nat x))"

text \<open>The \<open>switch\<close> on the lower-cased name: the field with its \<open>min\<close> and \<open>max\<close>.\<close>

definition fieldOf :: "string \<Rightarrow> (propType \<times> int \<times> int) option" where
  "fieldOf n =
     (if n \<in> set [''s'', ''sec'', ''second'', ''seconds'', ''secondofminute'', ''secondsofminute'']
        then Some (Seconds, 0, 59)
      else if n \<in> set [''m'', ''min'', ''minute'', ''minutes'', ''minuteofhour'', ''minutesofhour'']
        then Some (Minutes, 0, 59)
      else if n \<in> set [''h'', ''hour'', ''hours'', ''hourofday'', ''hoursofday'']
        then Some (Hours, 0, 23)
      else if n \<in> set [''day'', ''days'', ''dow'', ''dayofweek'', ''daysofweek'']
        then Some (DaysOfWeek, 1, 7)
      else if n \<in> set [''dom'', ''dayofmonth'', ''daysofmonth'']
        then Some (DaysOfMonth, - 31, 31)
      else if n \<in> set [''date'', ''dates'']
        then Some (Dates, 1, 31)
      else None)"

text \<open>
  \<open>if (arg.modulus)\<close>: a modulus is there and is not zero; and \<open>arg.modulus < 0\<close>, which
  is false of \<open>null\<close>.
\<close>

definition hasModulus :: "Argument \<Rightarrow> bool" where
  "hasModulus arg = (case modulus arg of None \<Rightarrow> False | Some m \<Rightarrow> m \<noteq> Finite 0)"

definition negativeModulus :: "Argument \<Rightarrow> bool" where
  "negativeModulus arg = (case modulus arg of None \<Rightarrow> False | Some m \<Rightarrow> isBelow m 0)"

text \<open>
  Lines 423 to 498, for a field other than \<open>dates\<close>: \<open>low\<close>, \<open>high\<close> and \<open>split\<close> of
  an argument of the expression \<open>name\<close>.
\<close>

definition normalize ::
  "string \<Rightarrow> propType \<Rightarrow> int \<Rightarrow> int \<Rightarrow> Argument \<Rightarrow> error + (int \<times> int \<times> bool)" where
  "normalize name propType mn mx arg =
     (case avalue arg of
        wildcard \<Rightarrow> Inr (if propType = DaysOfMonth then 1 else mn, mx, False)
      | days l h \<Rightarrow>
          (if propType \<noteq> DaysOfWeek
           then Inl (SyntaxError
                       ''Weekday names can only be used inside daysOfWeek expressions.''
                       (firstToken arg))
           else
             (let lo = toInt32 l; hi = toInt32 h in
              if hi < lo then Inr (lo, hi, True)
              else if hasModulus arg \<and> hi = lo then Inr (lo, mx, False)
              else Inr (lo, hi, False)))
      | dates l h \<Rightarrow>
          (if propType = DaysOfWeek
           then Inl (SyntaxError (''Invalid argument in '' @ name @ '' expression.'')
                       (firstToken arg))
           else Inl (SyntaxError ''Invalid Argument'' (firstToken arg)))
      | number n \<Rightarrow>
          (let lo = toInt32 n in Inr (lo, if hasModulus arg then mx else lo, False))
      | range l h \<Rightarrow>
          (let lo = toInt32 l; hi = toInt32 h in
           if propType = DaysOfWeek then
             (if hi < lo then Inr (lo, hi, True)
              else if hasModulus arg \<and> hi = lo then Inr (lo, mx, False)
              else Inr (lo, hi, False))
           else Inr (lo, hi, lo > hi \<and> \<not> (lo \<ge> 0 \<and> hi < 0))))"

text \<open>Lines 500 to 517: the bounds of a field other than \<open>dates\<close>.\<close>

definition validate ::
  "propType \<Rightarrow> int \<Rightarrow> int \<Rightarrow> Token \<Rightarrow> int \<times> int \<Rightarrow> error + (int \<times> int)" where
  "validate propType mn mx tok lh =
     (let lo = fst lh; hi = snd lh in
      if lo < mn \<or> hi < mn
        then Inl (SyntaxError (''Minimum '' @ propName propType @ '' value is '' @ showInt mn) tok)
      else if hi > mx \<or> lo > mx
        then Inl (SyntaxError (''Maximum '' @ propName propType @ '' value is '' @ showInt mx) tok)
      else if propType = DaysOfMonth \<and> (lo = 0 \<or> hi = 0)
        then Inl (SyntaxError ''Day of month cannot be zero.'' tok)
      else if propType = DaysOfWeek then Inr (lo - 1, hi - 1)
      else Inr (lo, hi))"

text \<open>
  Lines 423 to 455, the \<open>dates\<close> field. The test for a date follows the one for a
  wildcard without an \<open>else\<close>, so a wildcard reaches the \<open>throw\<close> as every argument
  that is not a date does.
\<close>

definition normalizeDates :: "Argument \<Rightarrow> error + (int date \<times> int date \<times> bool)" where
  "normalizeDates arg =
     (case avalue arg of
        dates l h \<Rightarrow>
          (let lm = toInt32 (month l); ld = toInt32 (day l);
               hm = toInt32 (month h); hd = toInt32 (day h)
           in Inr (Date (lm - 1) ld, Date (hm - 1) hd,
                   lm \<ge> hm \<and> (lm > hm \<or> ld > hd)))
      | _ \<Rightarrow> Inl (SyntaxError ''Invalid argument. Expected a date.'' (firstToken arg)))"

text \<open>
  One turn of the loop over \<open>args\<close> (lines 421 to 527) on an \<open>Argument\<close>: the property
  and the \<open>Range\<close> pushed to it.
\<close>

definition compileArgument ::
  "string \<Rightarrow> propType \<Rightarrow> int \<Rightarrow> int \<Rightarrow> Argument \<Rightarrow> error + (property \<times> Range)" where
  "compileArgument name propType mn mx arg =
     (case (if propType = Dates
            then (case normalizeDates arg of
                    Inl e \<Rightarrow> Inl e
                  | Inr (l, h, s) \<Rightarrow> Inr (MonthDay l, MonthDay h, s))
            else (case normalize name propType mn mx arg of
                    Inl e \<Rightarrow> Inl e
                  | Inr (l, h, s) \<Rightarrow>
                      (case validate propType mn mx (firstToken arg) (l, h) of
                         Inl e \<Rightarrow> Inl e
                       | Inr (l', h') \<Rightarrow> Inr (Num l', Num h', s)))) of
        Inl e \<Rightarrow> Inl e
      | Inr (l, h, s) \<Rightarrow>
          (if negativeModulus arg
           then Inl (SyntaxError ''Modulus value cannot be negative.'' (firstToken arg))
           else Inr ((propType, isExclude arg),
                     \<lparr> low = l, high = h, split = s, rmodulus = modulus arg \<rparr>)))"

text \<open>
  An element of \<open>args\<close> that is a nested expression has none of the five types: it
  reaches the \<open>throw\<close> of its branch.
\<close>

definition nestedExpressionError :: "string \<Rightarrow> propType \<Rightarrow> Token \<Rightarrow> error" where
  "nestedExpressionError name propType tok =
     (if propType = Dates then SyntaxError ''Invalid argument. Expected a date.'' tok
      else if propType = DaysOfWeek
        then SyntaxError (''Invalid argument in '' @ name @ '' expression.'') tok
      else SyntaxError ''Invalid Argument'' tok)"

text \<open>The loop over \<open>args\<close>, on the rule and \<open>somethingSet\<close>.\<close>

fun compileArguments ::
  "string \<Rightarrow> propType \<Rightarrow> int \<Rightarrow> int \<Rightarrow> node list \<Rightarrow> RuleGroup \<times> bool
     \<Rightarrow> error + (RuleGroup \<times> bool)" where
  "compileArguments name propType mn mx [] st = Inr st"
| "compileArguments name propType mn mx (Expression n as tok # args) st =
     Inl (nestedExpressionError name propType tok)"
| "compileArguments name propType mn mx (Arg arg # args) st =
     (case compileArgument name propType mn mx arg of
        Inl e \<Rightarrow> Inl e
      | Inr (p, r) \<Rightarrow>
          compileArguments name propType mn mx args (pushRange (fst st) p r, True))"

text \<open>One turn of the loop over \<open>expressions\<close> (lines 340 to 528).\<close>

definition compileExpression :: "node \<Rightarrow> RuleGroup \<times> bool \<Rightarrow> error + (RuleGroup \<times> bool)" where
  "compileExpression cmd st =
     (case cmd of
        Arg a \<Rightarrow> Inl (SyntaxError ''Expected a expression argument.'' (firstToken a))
      | Expression nm args tok \<Rightarrow>
          (let name = toLowerCase nm in
           case fieldOf name of
             None \<Rightarrow> Inl (SyntaxError (''Unknown expression '' @ nm) tok)
           | Some (propType, mn, mx) \<Rightarrow>
               (if args = [] then
                  (if propType = Dates then Inr (fst st, True)
                   else compileArguments name propType mn mx
                          [Arg \<lparr> avalue = range (ofInt mn) (ofInt mx), isExclude = False,
                                 modulus = None,
                                 firstToken = tok \<rparr>] st)
                else compileArguments name propType mn mx args st)))"

fun compileGroup_loop :: "node list \<Rightarrow> RuleGroup \<times> bool \<Rightarrow> error + (RuleGroup \<times> bool)" where
  "compileGroup_loop [] st = Inr st"
| "compileGroup_loop (cmd # expressions) st =
     (case compileExpression cmd st of
        Inl e \<Rightarrow> Inl e
      | Inr st' \<Rightarrow> compileGroup_loop expressions st')"

text \<open>Lines 534 to 553: the implied values.\<close>

definition impliedValues :: "RuleGroup \<Rightarrow> RuleGroup" where
  "impliedValues rule =
     (if rule (Seconds, False) \<noteq> None \<or> rule (Seconds, True) \<noteq> None then rule
      else if rule (Minutes, False) \<noteq> None \<or> rule (Minutes, True) \<noteq> None
        then rule((Seconds, False) \<mapsto> [Range_new 0 0])
      else if rule (Hours, False) \<noteq> None \<or> rule (Hours, True) \<noteq> None
        then rule((Seconds, False) \<mapsto> [Range_new 0 0], (Minutes, False) \<mapsto> [Range_new 0 0])
      else rule((Seconds, False) \<mapsto> [Range_new 0 0], (Minutes, False) \<mapsto> [Range_new 0 0],
                (Hours, False) \<mapsto> [Range_new 0 0]))"

text \<open>\<open>compileGroup\<close> returns \<open>null\<close>, here \<open>None\<close>, when nothing was set.\<close>

definition compileGroup :: "node list \<Rightarrow> error + RuleGroup option" where
  "compileGroup expressions =
     (case compileGroup_loop expressions (Map.empty, False) of
        Inl e \<Rightarrow> Inl e
      | Inr (rule, somethingSet) \<Rightarrow>
          (if \<not> somethingSet then Inr None else Inr (Some (impliedValues rule))))"

text \<open>
  The loop of \<open>compile\<close> over the tree, on \<open>rules\<close> and \<open>globalExpressions\<close>, and
  \<open>compile\<close>. After the loop \<open>i\<close> is the length of the tree, so \<open>globalExpressions[i]\<close> in
  the last \<open>throw\<close> is \<open>undefined\<close>.
\<close>

fun compile_loop ::
  "node list \<Rightarrow> RuleGroup list \<times> node list \<Rightarrow> error + (RuleGroup list \<times> node list)" where
  "compile_loop [] st = Inr st"
| "compile_loop (Arg a # ast) st =
     Inl (SyntaxError ''Syntax Tree is invalid. Top-level item is not a expression.''
            (firstToken a))"
| "compile_loop (Expression nm args tok # ast) st =
     (if nm = ''group'' then
        (case compileGroup args of
           Inl e \<Rightarrow> Inl e
         | Inr None \<Rightarrow> Inl (SyntaxError ''No rules in schedule.'' tok)
         | Inr (Some rule) \<Rightarrow> compile_loop ast (fst st @ [rule], snd st))
      else compile_loop ast (fst st, snd st @ [Expression nm args tok]))"

definition compile :: "node list \<Rightarrow> error + RuleGroup list" where
  "compile ast =
     (case compile_loop ast ([], []) of
        Inl e \<Rightarrow> Inl e
      | Inr (rules, globalExpressions) \<Rightarrow>
          (if globalExpressions \<noteq> [] then
             (case compileGroup globalExpressions of
                Inl e \<Rightarrow> Inl e
              | Inr None \<Rightarrow> Inl TypeError
              | Inr (Some rule) \<Rightarrow> Inr (rules @ [rule]))
           else Inr rules))"

text \<open>
  The three stages in turn on a text: \<open>tokenize\<close>, \<open>buildAbstractSyntaxTree\<close>, \<open>compile\<close>.
\<close>

definition schedule :: "string \<Rightarrow> (error + RuleGroup list) option" where
  "schedule str =
     (case buildAbstractSyntaxTree (tokenize str) of
        None \<Rightarrow> None
      | Some (Inl e) \<Rightarrow> Some (Inl e)
      | Some (Inr ast) \<Rightarrow> Some (compile ast))"

text \<open>
  A \<open>RuleGroup\<close> is shown as the list of the properties that are set, in a fixed order,
  each with its list of ranges; \<open>scheduleProperties\<close> is the result for a text, shown so.
\<close>

definition allProperties :: "property list" where
  "allProperties =
     [(Seconds, False), (Seconds, True), (Minutes, False), (Minutes, True),
      (Hours, False), (Hours, True), (DaysOfWeek, False), (DaysOfWeek, True),
      (DaysOfMonth, False), (DaysOfMonth, True), (Dates, False), (Dates, True)]"

definition properties :: "RuleGroup \<Rightarrow> (property \<times> Range list) list" where
  "properties rule = List.map_filter (\<lambda>p. map_option (Pair p) (rule p)) allProperties"

definition scheduleProperties ::
  "string \<Rightarrow> (error + (property \<times> Range list) list list) option" where
  "scheduleProperties str = map_option (map_sum id (map properties)) (schedule str)"

text \<open>
  For the exclusion of arguments: the list at a property, empty when the property is
  not set, and the ranges that the arguments of an expression of the field \<open>F\<close> with
  the exclusion mark \<open>x\<close> compile to, in their order.
\<close>

definition listOf :: "Range list option \<Rightarrow> Range list" where
  "listOf v = (case v of None \<Rightarrow> [] | Some rs \<Rightarrow> rs)"

definition compiledRanges ::
  "string \<Rightarrow> propType \<Rightarrow> int \<Rightarrow> int \<Rightarrow> bool \<Rightarrow> node list \<Rightarrow> Range list" where
  "compiledRanges name F mn mx x args =
     concat (map (\<lambda>nd. case nd of
                     Arg a \<Rightarrow>
                       (if isExclude a = x
                        then (case compileArgument name F mn mx a of
                                Inr pr \<Rightarrow> [snd pr]
                              | Inl e \<Rightarrow> [])
                        else [])
                   | Expression nm as tok \<Rightarrow> []) args)"

text \<open>
  The grammar \<open>document := (expression | ',')*\<close> read on the tokens from a cursor on:
  \<open>document tokens i ast ast'\<close> says that the tokens from \<open>i\<close> to the end are expressions
  and commas, no comma being the first token of all, and that pushing the nodes of the
  expressions to \<open>ast\<close> gives \<open>ast'\<close>. An expression is a keyword followed by what
  \<open>buildExpression\<close> accepts.
\<close>

inductive document :: "Token list \<Rightarrow> nat \<Rightarrow> node list \<Rightarrow> node list \<Rightarrow> bool"
  for tokens :: "Token list" where
  document_end: "tokenAt tokens i = None \<Longrightarrow> document tokens i ast ast"
| document_comma:
    "tokenAt tokens i = Some t \<Longrightarrow> \<not> isExpression t \<Longrightarrow> tvalue t = '','' \<Longrightarrow> 0 < i \<Longrightarrow>
     document tokens (i + 1) ast ast' \<Longrightarrow> document tokens i ast ast'"
| document_expression:
    "tokenAt tokens i = Some t \<Longrightarrow> isExpression t \<Longrightarrow>
     buildExpression n tokens i ast = Some (Inr (j, ast1)) \<Longrightarrow>
     document tokens j ast1 ast' \<Longrightarrow> document tokens i ast ast'"

text \<open>
  An interleaving of expressions and commas, piece by piece: a comma token, or the
  tokens of one expression with its node. A piece is well formed when the comma is a
  comma and is no keyword, or when the tokens start with a keyword and
  \<open>buildExpression\<close>, on these tokens alone, consumes them all and pushes the node.
\<close>

datatype item = Comma Token | Block "Token list" node

fun itemTokens :: "item \<Rightarrow> Token list" where
  "itemTokens (Comma c) = [c]"
| "itemTokens (Block e nd) = e"

fun itemNodes :: "item \<Rightarrow> node list" where
  "itemNodes (Comma c) = []"
| "itemNodes (Block e nd) = [nd]"

fun itemOk :: "item \<Rightarrow> bool" where
  "itemOk (Comma c) = (tvalue c = '','' \<and> \<not> isExpression c)"
| "itemOk (Block e nd) =
     ((case tokenAt e 0 of Some t \<Rightarrow> isExpression t | None \<Rightarrow> False) \<and>
      buildExpression (3 * length e + 1) e 0 [] = Some (Inr (length e, [nd])))"

fun startsWithComma :: "item list \<Rightarrow> bool" where
  "startsWithComma (Comma c # items) = True"
| "startsWithComma items = False"

text \<open>A date that is parsed has its month from 1 to 12 and its day from 1 to 31.\<close>

definition validDate :: "jsnum date \<Rightarrow> bool" where
  "validDate d = (\<not> isBelow (month d) 1 \<and> \<not> isAbove (month d) 12
                \<and> \<not> isBelow (day d) 1 \<and> \<not> isAbove (day d) 31)"

section \<open>Properties of the numbers\<close>

text \<open>
  \<open>Number\<close> on texts of each form: a fraction, a hexadecimal integer, an exponent, a
  sign, an infinity, an integer that is not a double and is rounded to one, one tenth,
  white space, and texts that are not numeric.
\<close>

lemma Number_js_examples:
  "Number_js ''1.5'' = Some (Finite (3 / 2))"
  "Number_js ''0x10'' = Some (Finite 16)"
  "Number_js ''1e1'' = Some (Finite 10)"
  "Number_js ''+5'' = Some (Finite 5)"
  "Number_js ''Infinity'' = Some PosInfinity"
  "Number_js ''9007199254740993'' = Some (Finite 9007199254740992)"
  "Number_js ''0.1'' = Some (Finite (3602879701896397 / 36028797018963968))"
  "Number_js [CHR 0x0C, CHR ''7''] = Some (Finite 7)"
  "Number_js ''5.'' = Some (Finite 5)"
  "Number_js ''.5'' = Some (Finite (1 / 2))"
  "Number_js ''.'' = None"
  "Number_js ''0x'' = None"
  "Number_js ''1e'' = None"
  "Number_js ''12abc'' = None"
  "Number_js ''hour'' = None"
  by code_simp+

text \<open>\<open>| 0\<close> truncates toward zero, wraps beyond 32 bits, and is 0 on an infinity.\<close>

lemma toInt32_examples:
  "toInt32 (Finite (3 / 2)) = 1"
  "toInt32 (Finite (- 3 / 2)) = - 1"
  "toInt32 (Finite 4294967297) = 1"
  "toInt32 (Finite 2147483648) = - 2147483648"
  "toInt32 PosInfinity = 0"
  by code_simp+

lemma trunc_of_int [simp]: "trunc (of_int x) = x"
  by (simp add: trunc_def)

lemma toInt32_trunc:
  "- 2147483648 \<le> trunc q \<Longrightarrow> trunc q < 2147483648 \<Longrightarrow> toInt32 (Finite q) = trunc q"
  by (simp add: toInt32_def)

lemma toInt32_id: "- 2147483648 \<le> x \<Longrightarrow> x < 2147483648 \<Longrightarrow> toInt32 (ofInt x) = x"
  by (simp add: toInt32_def)

lemma trunc_bounds:
  assumes "of_int a \<le> q" and "q \<le> of_int b" and "a \<le> 0" and "0 \<le> b"
  shows "a \<le> trunc q \<and> trunc q \<le> b"
proof (cases "q < 0")
  case True
  then have "trunc q = \<lceil>q\<rceil>" by (simp add: trunc_def ceiling_def)
  moreover have "a \<le> \<lceil>q\<rceil>" using assms(1) by (simp add: le_ceiling_iff)
  moreover have "\<lceil>q\<rceil> \<le> 0" using True by (simp add: ceiling_le_iff)
  ultimately show ?thesis using assms(4) by linarith
next
  case False
  then have "trunc q = \<lfloor>q\<rfloor>" by (simp add: trunc_def)
  moreover have "\<lfloor>q\<rfloor> \<le> b" using assms(2) by (simp add: floor_le_iff) 
  moreover have "0 \<le> \<lfloor>q\<rfloor>" using False by simp
  ultimately show ?thesis using assms(3) by linarith
qed

section \<open>Properties of the compiler\<close>

lemma fieldOf_cases:
  assumes "fieldOf n = Some (F, mn, mx)"
  shows "(F, mn, mx) \<in> {(Seconds, 0, 59), (Minutes, 0, 59), (Hours, 0, 23),
                         (DaysOfWeek, 1, 7), (DaysOfMonth, - 31, 31), (Dates, 1, 31)}"
  using assms unfolding fieldOf_def by (simp split: if_splits)

lemma impliedValues_keeps: "rule p = Some rs \<Longrightarrow> impliedValues rule p = Some rs"
  by (cases p) (auto simp: impliedValues_def)

text \<open>A group of one expression with one argument: what the argument compiles to.\<close>

lemma compileGroup_single_Inr:
  assumes "fieldOf (toLowerCase nm) = Some (F, mn, mx)"
    and "compileArgument (toLowerCase nm) F mn mx a = Inr (p, r)"
  shows "\<exists>rule. compileGroup [Expression nm [Arg a] tok] = Inr (Some rule) \<and> rule p = Some [r]"
  using assms
  by (simp add: compileGroup_def compileExpression_def pushRange_def impliedValues_keeps)

lemma compileGroup_single_Inr_iff:
  assumes "fieldOf (toLowerCase nm) = Some (F, mn, mx)"
    and "compileGroup [Expression nm [Arg a] tok] = Inr (Some rule)"
  shows "\<exists>p r. compileArgument (toLowerCase nm) F mn mx a = Inr (p, r) \<and> rule p = Some [r]"
  using assms
  by (auto simp: compileGroup_def compileExpression_def pushRange_def impliedValues_keeps Let_def
           split: sum.splits if_splits prod.splits)

lemma compileGroup_single_Inl:
  assumes "fieldOf (toLowerCase nm) = Some (F, mn, mx)"
    and "compileArgument (toLowerCase nm) F mn mx a = Inl e"
  shows "compileGroup [Expression nm [Arg a] tok] = Inl e"
  using assms
  by (simp add: compileGroup_def compileExpression_def)

lemma compileArgument_number:
  assumes "F \<noteq> Dates"
  shows "compileArgument name F mn mx
           \<lparr> avalue = number n, isExclude = x, modulus = m, firstToken = t \<rparr> =
     (case validate F mn mx t
             (toInt32 n, if m = None \<or> m = Some (Finite 0) then toInt32 n else mx) of
        Inl e \<Rightarrow> Inl e
      | Inr (l, h) \<Rightarrow>
          if (case m of None \<Rightarrow> False | Some k \<Rightarrow> isBelow k 0)
          then Inl (SyntaxError ''Modulus value cannot be negative.'' t)
          else Inr ((F, x), \<lparr> low = Num l, high = Num h, split = False, rmodulus = m \<rparr>))"
  using assms
  by (auto simp: compileArgument_def normalize_def hasModulus_def negativeModulus_def Let_def
           split: sum.splits option.splits)

lemma compileArgument_range:
  assumes "F \<noteq> Dates" "F \<noteq> DaysOfWeek"
  shows "compileArgument name F mn mx
           \<lparr> avalue = range l h, isExclude = x, modulus = m, firstToken = t \<rparr> =
     (case validate F mn mx t (toInt32 l, toInt32 h) of
        Inl e \<Rightarrow> Inl e
      | Inr (l', h') \<Rightarrow>
          if (case m of None \<Rightarrow> False | Some k \<Rightarrow> isBelow k 0)
          then Inl (SyntaxError ''Modulus value cannot be negative.'' t)
          else Inr ((F, x),
                    \<lparr> low = Num l', high = Num h',
                      split = (toInt32 l > toInt32 h \<and> \<not> (toInt32 l \<ge> 0 \<and> toInt32 h < 0)),
                      rmodulus = m \<rparr>))"
  using assms
  by (auto simp: compileArgument_def normalize_def hasModulus_def negativeModulus_def Let_def
           split: sum.splits option.splits)

lemma compileArgument_number_dates:
  "compileArgument name Dates mn mx
     \<lparr> avalue = number n, isExclude = x, modulus = m, firstToken = t \<rparr> =
   Inl (SyntaxError ''Invalid argument. Expected a date.'' t)"
  by (simp add: compileArgument_def normalizeDates_def)

subsection \<open>Bounds of the fields\<close>

text \<open>
  C3, as amended. For every field other than \<open>dates\<close>, whatever the alias that names it,
  a single number equal to the \<open>min\<close> or to the \<open>max\<close> of the field compiles (to the range
  of that one value, shifted down by one on the days of the week), \<open>min - 1\<close> raises
  \<open>Minimum <field> value is <min>\<close> and \<open>max + 1\<close> raises \<open>Maximum <field> value is <max>\<close>.
  On the \<open>dates\<close> field every single number raises \<open>Invalid argument. Expected a date.\<close>:
  no bound is checked there.
\<close>

theorem field_bounds:
  assumes "fieldOf (toLowerCase nm) = Some (F, mn, mx)"
  shows "(F \<noteq> Dates \<longrightarrow>
          (\<forall>v \<in> {mn, mx}. \<exists>rule.
            compileGroup [Expression nm
              [Arg \<lparr> avalue = number (ofInt v), isExclude = False, modulus = None,
                     firstToken = t \<rparr>] tok]
              = Inr (Some rule) \<and>
            rule (F, False) = Some [Range_new (if F = DaysOfWeek then v - 1 else v)
                                              (if F = DaysOfWeek then v - 1 else v)])
        \<and> compileGroup [Expression nm
              [Arg \<lparr> avalue = number (ofInt (mn - 1)), isExclude = False, modulus = None,
                     firstToken = t \<rparr>] tok]
            = Inl (SyntaxError (''Minimum '' @ propName F @ '' value is '' @ showInt mn) t)
        \<and> compileGroup [Expression nm
              [Arg \<lparr> avalue = number (ofInt (mx + 1)), isExclude = False, modulus = None,
                     firstToken = t \<rparr>] tok]
            = Inl (SyntaxError (''Maximum '' @ propName F @ '' value is '' @ showInt mx) t))
       \<and> (F = Dates \<longrightarrow>
          (\<forall>n. compileGroup [Expression nm
              [Arg \<lparr> avalue = number n, isExclude = False, modulus = None,
                     firstToken = t \<rparr>] tok]
            = Inl (SyntaxError ''Invalid argument. Expected a date.'' t)))"
proof (intro conjI impI)
  let ?A = "\<lambda>v. \<lparr> avalue = number (ofInt v), isExclude = False, modulus = None,
                   firstToken = t \<rparr>"
  assume nd: "F \<noteq> Dates"
  from fieldOf_cases [OF assms(1)] nd
  have F: "(F, mn, mx) \<in> {(Seconds, 0, 59), (Minutes, 0, 59), (Hours, 0, 23),
                          (DaysOfWeek, 1, 7), (DaysOfMonth, - 31, 31)}"
    by auto
  have ok: "compileArgument (toLowerCase nm) F mn mx (?A v) =
      Inr ((F, False), Range_new (if F = DaysOfWeek then v - 1 else v)
                                 (if F = DaysOfWeek then v - 1 else v))"
    if "v \<in> {mn, mx}" for v
  proof -
    from F that have "toInt32 (ofInt v) = v" by (intro toInt32_id) auto
    with F that nd show ?thesis
      by (auto simp: compileArgument_number validate_def Range_new_def)
  qed
  have lo: "compileArgument (toLowerCase nm) F mn mx (?A (mn - 1)) =
      Inl (SyntaxError (''Minimum '' @ propName F @ '' value is '' @ showInt mn) t)"
  proof -
    from F have "toInt32 (ofInt (mn - 1)) = mn - 1" by (intro toInt32_id) auto
    with F nd show ?thesis
      by (auto simp: compileArgument_number validate_def)
  qed
  have hi: "compileArgument (toLowerCase nm) F mn mx (?A (mx + 1)) =
      Inl (SyntaxError (''Maximum '' @ propName F @ '' value is '' @ showInt mx) t)"
  proof -
    from F have "toInt32 (ofInt (mx + 1)) = mx + 1" by (intro toInt32_id) auto
    with F nd show ?thesis
      by (auto simp: compileArgument_number validate_def)
  qed
  show "\<forall>v \<in> {mn, mx}. \<exists>rule.
            compileGroup [Expression nm [Arg (?A v)] tok] = Inr (Some rule) \<and>
            rule (F, False) = Some [Range_new (if F = DaysOfWeek then v - 1 else v)
                                              (if F = DaysOfWeek then v - 1 else v)]"
    using compileGroup_single_Inr [OF assms(1) ok] by blast
  show "compileGroup [Expression nm [Arg (?A (mn - 1))] tok]
            = Inl (SyntaxError (''Minimum '' @ propName F @ '' value is '' @ showInt mn) t)"
    using compileGroup_single_Inl [OF assms(1) lo] .
  show "compileGroup [Expression nm [Arg (?A (mx + 1))] tok]
            = Inl (SyntaxError (''Maximum '' @ propName F @ '' value is '' @ showInt mx) t)"
    using compileGroup_single_Inl [OF assms(1) hi] .
next
  assume d: "F = Dates"
  show "\<forall>n. compileGroup [Expression nm
              [Arg \<lparr> avalue = number n, isExclude = False, modulus = None,
                     firstToken = t \<rparr>] tok]
            = Inl (SyntaxError ''Invalid argument. Expected a date.'' t)"
    using compileGroup_single_Inl [OF assms(1) [unfolded d] compileArgument_number_dates]
    by simp
qed

theorem field_bounds_witness:
  "(\<exists>rule.
      compileGroup [Expression ''Hour''
        [Arg \<lparr> avalue = number (Finite 0), isExclude = False, modulus = None,
               firstToken = Token_new 5 ''0'' False \<rparr>] (Token_new 0 ''Hour'' False)]
        = Inr (Some rule) \<and>
      rule (Hours, False) = Some [Range_new 0 0])
   \<and> (\<exists>rule.
      compileGroup [Expression ''Hour''
        [Arg \<lparr> avalue = number (Finite 23), isExclude = False, modulus = None,
               firstToken = Token_new 5 ''0'' False \<rparr>] (Token_new 0 ''Hour'' False)]
        = Inr (Some rule) \<and>
      rule (Hours, False) = Some [Range_new 23 23])
   \<and> compileGroup [Expression ''Hour''
        [Arg \<lparr> avalue = number (Finite (- 1)), isExclude = False, modulus = None,
               firstToken = Token_new 5 ''0'' False \<rparr>] (Token_new 0 ''Hour'' False)]
      = Inl (SyntaxError ''Minimum hours value is 0'' (Token_new 5 ''0'' False))
   \<and> compileGroup [Expression ''Hour''
        [Arg \<lparr> avalue = number (Finite 24), isExclude = False, modulus = None,
               firstToken = Token_new 5 ''0'' False \<rparr>] (Token_new 0 ''Hour'' False)]
      = Inl (SyntaxError ''Maximum hours value is 23'' (Token_new 5 ''0'' False))
   \<and> compileGroup [Expression ''date''
        [Arg \<lparr> avalue = number (Finite 1), isExclude = False, modulus = None,
               firstToken = Token_new 5 ''1'' False \<rparr>] (Token_new 0 ''date'' False)]
      = Inl (SyntaxError ''Invalid argument. Expected a date.'' (Token_new 5 ''1'' False))"
proof -
  have f: "fieldOf (toLowerCase ''Hour'') = Some (Hours, 0, 23)" by code_simp
  have g: "fieldOf (toLowerCase ''date'') = Some (Dates, 1, 31)" by code_simp
  have s: "showInt 0 = ''0''" "showInt 23 = ''23''" by code_simp+
  show ?thesis
    using field_bounds [OF f, of "Token_new 5 ''0'' False" "Token_new 0 ''Hour'' False"] s
      field_bounds [OF g, of "Token_new 5 ''1'' False" "Token_new 0 ''date'' False"]
    by simp
qed

text \<open>
  C3 as stated fails on the \<open>dates\<close> field, whose \<open>min\<close> is 1: the single value 1 does not
  compile, and neither it nor \<open>min - 1\<close> raises a \<open>Minimum\<close> error. The bounds are not
  checked on this field, and a number is not a date.
\<close>

theorem field_bounds_dates_counterexample:
  "scheduleProperties ''date(1)'' =
     Some (Inl (SyntaxError ''Invalid argument. Expected a date.'' (Token_new 5 ''1'' False)))
   \<and> scheduleProperties ''date(0)'' =
     Some (Inl (SyntaxError ''Invalid argument. Expected a date.'' (Token_new 5 ''0'' False)))"
  by code_simp

subsection \<open>A number with a modulus\<close>

text \<open>
  C4, as amended. On a numeric field (seconds, minutes, hours, day of month), take a
  single number \<open>n\<close> and \<open>n'\<close>, the integer that \<open>n\<close> truncates to toward zero (\<open>n\<close> itself
  when it is an integer). When \<open>n'\<close> is within the bounds of the field, and is not 0 on
  the day of month, and the modulus is not negative, the argument compiles: to the range
  from \<open>n'\<close> to the \<open>max\<close> of the field with modulus \<open>k\<close> when it carries a modulus \<open>k\<close>
  other than 0, and to the range from \<open>n'\<close> to \<open>n'\<close>, with the modulus it has, when the
  modulus is 0 or absent.
\<close>

theorem number_with_modulus:
  assumes "fieldOf (toLowerCase nm) = Some (F, mn, mx)"
    and "F \<in> {Seconds, Minutes, Hours, DaysOfMonth}"
    and "mn \<le> trunc n" and "trunc n \<le> mx"
    and "F = DaysOfMonth \<longrightarrow> trunc n \<noteq> 0"
    and "\<forall>k. m = Some k \<longrightarrow> \<not> isBelow k 0"
  shows "\<exists>rule. compileGroup [Expression nm
                    [Arg \<lparr> avalue = number (Finite n), isExclude = x, modulus = m,
                           firstToken = t \<rparr>] tok]
                  = Inr (Some rule) \<and>
            rule (F, x) = Some [\<lparr> low = Num (trunc n),
                                  high = Num (if m = None \<or> m = Some (Finite 0)
                                              then trunc n else mx),
                                  split = False, rmodulus = m \<rparr>]"
proof -
  let ?a = "\<lparr> avalue = number (Finite n), isExclude = x, modulus = m, firstToken = t \<rparr>"
  from fieldOf_cases [OF assms(1)] assms(2)
  have F: "(F, mn, mx) \<in> {(Seconds, 0, 59), (Minutes, 0, 59), (Hours, 0, 23), (DaysOfMonth, - 31, 31)}"
    by auto
  with assms(3,4) have n: "toInt32 (Finite n) = trunc n"
    by (intro toInt32_trunc) auto
  from F assms(3-6)
  have "compileArgument (toLowerCase nm) F mn mx ?a =
          Inr ((F, x), \<lparr> low = Num (trunc n),
                         high = Num (if m = None \<or> m = Some (Finite 0) then trunc n else mx),
                         split = False, rmodulus = m \<rparr>)"
    by (cases m) (auto simp: compileArgument_number validate_def n Let_def)
  from compileGroup_single_Inr [OF assms(1) this] show ?thesis .
qed

theorem number_with_modulus_witness:
  "(\<exists>rule. compileGroup [Expression ''hour''
              [Arg \<lparr> avalue = number (Finite 5), isExclude = False, modulus = Some (Finite 2),
                     firstToken = Token_new 5 ''5'' False \<rparr>] (Token_new 0 ''hour'' False)]
            = Inr (Some rule)
          \<and> rule (Hours, False) =
              Some [\<lparr> low = Num 5, high = Num 23, split = False,
                      rmodulus = Some (Finite 2) \<rparr>])
   \<and> (\<exists>rule. compileGroup [Expression ''sec''
              [Arg \<lparr> avalue = number (Finite (3 / 2)), isExclude = False, modulus = None,
                     firstToken = Token_new 4 ''1.5'' False \<rparr>] (Token_new 0 ''sec'' False)]
            = Inr (Some rule)
          \<and> rule (Seconds, False) =
              Some [\<lparr> low = Num 1, high = Num 1, split = False, rmodulus = None \<rparr>])"
proof -
  have f: "fieldOf (toLowerCase ''hour'') = Some (Hours, 0, 23)" by code_simp
  have g: "fieldOf (toLowerCase ''sec'') = Some (Seconds, 0, 59)" by code_simp
  have t: "trunc 5 = 5" "trunc (3 / 2) = 1" by code_simp+
  have b: "\<not> isBelow (Finite 2) 0" by code_simp
  show ?thesis
    using number_with_modulus [OF f, of 5 "Some (Finite 2)" False "Token_new 5 ''5'' False"
        "Token_new 0 ''hour'' False"]
      number_with_modulus [OF g, of "3 / 2" None False "Token_new 4 ''1.5'' False"
        "Token_new 0 ''sec'' False"] t b
    by simp
qed

text \<open>
  C4 as stated fails for the modulus 0: \<open>if (arg.modulus)\<close> takes it for no modulus, and
  the range of \<open>hour(5%0)\<close> is from 5 to 5, not from 5 to 23, with modulus 0. It fails
  for a number with a fraction as well: \<open>arg.value | 0\<close> truncates it, and the range of
  \<open>sec(1.5)\<close> is from 1 to 1.
\<close>

theorem number_with_modulus_counterexample:
  "scheduleProperties ''hour(5%0)'' =
     Some (Inr [[((Seconds, False), [Range_new 0 0]), ((Minutes, False), [Range_new 0 0]),
                 ((Hours, False),
                  [\<lparr> low = Num 5, high = Num 5, split = False, rmodulus = Some (Finite 0) \<rparr>])]])
   \<and> scheduleProperties ''sec(1.5)'' = Some (Inr [[((Seconds, False), [Range_new 1 1])]])"
  by code_simp

subsection \<open>An explicit range\<close>

text \<open>
  On a numeric field, an explicit range whose bounds, truncated toward zero, are within
  the bounds of the field (and are not 0 on the day of month) compiles to the range of
  the truncated bounds, marked split if and only if \<open>low > high\<close> and not (\<open>low \<ge> 0\<close>
  and \<open>high < 0\<close>).
\<close>

lemma explicit_range_within:
  assumes "fieldOf (toLowerCase nm) = Some (F, mn, mx)"
    and "F \<in> {Seconds, Minutes, Hours, DaysOfMonth}"
    and "mn \<le> trunc lo" and "trunc lo \<le> mx"
    and "mn \<le> trunc hi" and "trunc hi \<le> mx"
    and "F = DaysOfMonth \<longrightarrow> trunc lo \<noteq> 0 \<and> trunc hi \<noteq> 0"
    and "\<forall>k. m = Some k \<longrightarrow> \<not> isBelow k 0"
  shows "\<exists>rule. compileGroup [Expression nm
                    [Arg \<lparr> avalue = range (Finite lo) (Finite hi), isExclude = x, modulus = m,
                           firstToken = t \<rparr>] tok]
                  = Inr (Some rule) \<and>
            rule (F, x) = Some [\<lparr> low = Num (trunc lo), high = Num (trunc hi),
                                  split = (trunc lo > trunc hi
                                           \<and> \<not> (trunc lo \<ge> 0 \<and> trunc hi < 0)),
                                  rmodulus = m \<rparr>]"
proof -
  let ?a = "\<lparr> avalue = range (Finite lo) (Finite hi), isExclude = x, modulus = m,
              firstToken = t \<rparr>"
  from fieldOf_cases [OF assms(1)] assms(2)
  have F: "(F, mn, mx) \<in> {(Seconds, 0, 59), (Minutes, 0, 59), (Hours, 0, 23), (DaysOfMonth, - 31, 31)}"
    by auto
  then have F': "F \<noteq> Dates" "F \<noteq> DaysOfWeek" by auto
  from F assms(3,4) have l: "toInt32 (Finite lo) = trunc lo"
    by (intro toInt32_trunc) auto
  from F assms(5,6) have h: "toInt32 (Finite hi) = trunc hi"
    by (intro toInt32_trunc) auto
  from F assms(3-8)
  have "compileArgument (toLowerCase nm) F mn mx ?a =
          Inr ((F, x), \<lparr> low = Num (trunc lo), high = Num (trunc hi),
                         split = (trunc lo > trunc hi \<and> \<not> (trunc lo \<ge> 0 \<and> trunc hi < 0)),
                         rmodulus = m \<rparr>)"
    by (cases m) (auto simp: compileArgument_range [OF F'] validate_def l h Let_def)
  from compileGroup_single_Inr [OF assms(1) this] show ?thesis .
qed

text \<open>
  C5. The bounds of an explicit range are coerced by \<open>| 0\<close> (lines 485 and 486) before
  they are compared with the \<open>min\<close> and the \<open>max\<close> of the field (lines 502 to 506): a
  bound beyond the signed 32-bit range wraps and passes the comparison. The range of
  \<open>hour(4294967297-5)\<close> is from 1 to 5: it has not the \<open>low\<close> of the argument, where
  \<open>hour(24-5)\<close> raises the error of the maximum.
\<close>

theorem explicit_range_wraps:
  "scheduleProperties ''hour(4294967297-5)'' =
     Some (Inr [[((Seconds, False), [Range_new 0 0]), ((Minutes, False), [Range_new 0 0]),
                 ((Hours, False), [Range_new 1 5])]])
   \<and> scheduleProperties ''hour(24-5)'' =
     Some (Inl (SyntaxError ''Maximum hours value is 23'' (Token_new 5 ''24'' False)))"
  by code_simp

subsection \<open>The day of month\<close>

text \<open>
  C9, as amended. \<open>dom(-1)\<close> compiles, to the range from -1 to -1, and \<open>dom(0)\<close> raises
  \<open>Day of month cannot be zero.\<close> So does, in an expression of the day of month, every
  single number 0 and every range whose low or high is 0 while both are within -31 and
  31. A range whose low or high is 0 raises an error whatever the other bound is.
\<close>

theorem day_of_month_zero:
  assumes "fieldOf (toLowerCase nm) = Some (DaysOfMonth, mn, mx)"
    and "lo = Finite 0 \<or> hi = Finite 0"
  shows "scheduleProperties ''dom(-1)'' =
           Some (Inr [[((Seconds, False), [Range_new 0 0]), ((Minutes, False), [Range_new 0 0]),
                       ((Hours, False), [Range_new 0 0]),
                       ((DaysOfMonth, False), [Range_new (- 1) (- 1)])]])
       \<and> scheduleProperties ''dom(0)'' =
           Some (Inl (SyntaxError ''Day of month cannot be zero.'' (Token_new 4 ''0'' False)))
       \<and> compileGroup [Expression nm
              [Arg \<lparr> avalue = number (Finite 0), isExclude = x, modulus = m, firstToken = t \<rparr>] tok]
           = Inl (SyntaxError ''Day of month cannot be zero.'' t)
       \<and> (\<not> isBelow lo (- 31) \<and> \<not> isAbove lo 31 \<and> \<not> isBelow hi (- 31) \<and> \<not> isAbove hi 31 \<longrightarrow>
           compileGroup [Expression nm
              [Arg \<lparr> avalue = range lo hi, isExclude = x, modulus = m, firstToken = t \<rparr>] tok]
           = Inl (SyntaxError ''Day of month cannot be zero.'' t))
       \<and> (\<exists>msg. compileGroup [Expression nm
              [Arg \<lparr> avalue = range lo hi, isExclude = x, modulus = m, firstToken = t \<rparr>] tok]
           = Inl (SyntaxError msg t))"
proof -
  from fieldOf_cases [OF assms(1)] have mm: "mn = - 31" "mx = 31" by auto
  have F': "DaysOfMonth \<noteq> Dates" "DaysOfMonth \<noteq> DaysOfWeek" by simp_all
  have z: "toInt32 (Finite 0) = 0" by (simp add: toInt32_def trunc_def)
  have a: "scheduleProperties ''dom(-1)'' =
           Some (Inr [[((Seconds, False), [Range_new 0 0]), ((Minutes, False), [Range_new 0 0]),
                       ((Hours, False), [Range_new 0 0]),
                       ((DaysOfMonth, False), [Range_new (- 1) (- 1)])]])"
    by code_simp
  have b: "scheduleProperties ''dom(0)'' =
           Some (Inl (SyntaxError ''Day of month cannot be zero.'' (Token_new 4 ''0'' False)))"
    by code_simp
  have c: "compileArgument (toLowerCase nm) DaysOfMonth mn mx
             \<lparr> avalue = number (Finite 0), isExclude = x, modulus = m, firstToken = t \<rparr>
           = Inl (SyntaxError ''Day of month cannot be zero.'' t)"
    by (simp add: compileArgument_number mm validate_def z)
  have w: "- 31 \<le> toInt32 y \<and> toInt32 y \<le> 31"
    if "\<not> isBelow y (- 31) \<and> \<not> isAbove y 31" for y
  proof (cases y)
    case (Finite q)
    with that have "of_int (- 31) \<le> q" "q \<le> of_int 31"
      by (simp_all add: isBelow_def isAbove_def)
    from trunc_bounds [OF this] have t: "- 31 \<le> trunc q \<and> trunc q \<le> 31" by simp
    then have "toInt32 (Finite q) = trunc q" by (intro toInt32_trunc) auto
    with t Finite show ?thesis by simp
  qed (use that in \<open>simp_all add: isBelow_def isAbove_def\<close>)
  have d: "compileArgument (toLowerCase nm) DaysOfMonth mn mx
             \<lparr> avalue = range lo hi, isExclude = x, modulus = m, firstToken = t \<rparr>
           = Inl (SyntaxError ''Day of month cannot be zero.'' t)"
    if "\<not> isBelow lo (- 31) \<and> \<not> isAbove lo 31 \<and> \<not> isBelow hi (- 31) \<and> \<not> isAbove hi 31"
  proof -
    from that w have "- 31 \<le> toInt32 lo \<and> toInt32 lo \<le> 31" "- 31 \<le> toInt32 hi \<and> toInt32 hi \<le> 31"
      by blast+
    moreover from assms(2) z have "toInt32 lo = 0 \<or> toInt32 hi = 0" by auto
    ultimately show ?thesis
      by (auto simp: compileArgument_range [OF F'] mm validate_def Let_def)
  qed
  have e: "\<exists>msg. compileArgument (toLowerCase nm) DaysOfMonth mn mx
             \<lparr> avalue = range lo hi, isExclude = x, modulus = m, firstToken = t \<rparr>
           = Inl (SyntaxError msg t)"
  proof -
    from assms(2) z have "toInt32 lo = 0 \<or> toInt32 hi = 0" by auto
    then show ?thesis
      by (auto simp: compileArgument_range [OF F'] mm validate_def Let_def)
  qed
  note c' = compileGroup_single_Inl [OF assms(1) c, of tok]
  have d': "\<not> isBelow lo (- 31) \<and> \<not> isAbove lo 31 \<and> \<not> isBelow hi (- 31) \<and> \<not> isAbove hi 31 \<longrightarrow>
           compileGroup [Expression nm
              [Arg \<lparr> avalue = range lo hi, isExclude = x, modulus = m, firstToken = t \<rparr>] tok]
           = Inl (SyntaxError ''Day of month cannot be zero.'' t)"
    using compileGroup_single_Inl [OF assms(1) d] by blast
  from e obtain msg where "compileArgument (toLowerCase nm) DaysOfMonth mn mx
             \<lparr> avalue = range lo hi, isExclude = x, modulus = m, firstToken = t \<rparr>
           = Inl (SyntaxError msg t)" ..
  from compileGroup_single_Inl [OF assms(1) this, of tok]
  have e': "\<exists>msg. compileGroup [Expression nm
              [Arg \<lparr> avalue = range lo hi, isExclude = x, modulus = m, firstToken = t \<rparr>] tok]
           = Inl (SyntaxError msg t)" ..
  from a b c' d' e' show ?thesis by (intro conjI)
qed

theorem day_of_month_zero_witness:
  "compileGroup [Expression ''dom''
      [Arg \<lparr> avalue = range (Finite (- 3)) (Finite 0), isExclude = False, modulus = None,
             firstToken = Token_new 4 ''-'' True \<rparr>] (Token_new 0 ''dom'' False)]
   = Inl (SyntaxError ''Day of month cannot be zero.'' (Token_new 4 ''-'' True))"
proof -
  have f: "fieldOf (toLowerCase ''dom'') = Some (DaysOfMonth, - 31, 31)" by code_simp
  have b: "\<not> isBelow (Finite (- 3)) (- 31)" "\<not> isAbove (Finite (- 3)) 31"
    "\<not> isBelow (Finite 0) (- 31)" "\<not> isAbove (Finite 0) 31" by code_simp+
  show ?thesis
    using day_of_month_zero [OF f, of "Finite (- 3)" "Finite 0" False None
        "Token_new 4 ''-'' True" "Token_new 0 ''dom'' False"] b
    by simp
qed

text \<open>
  C9 as stated fails for a range with a 0 when the other bound is out of the bounds of
  the field, which are checked first: \<open>dom(0-32)\<close> raises the error of the maximum.
\<close>

theorem day_of_month_zero_counterexample:
  "scheduleProperties ''dom(0-32)'' =
     Some (Inl (SyntaxError ''Maximum daysOfMonth value is 31'' (Token_new 4 ''0'' False)))"
  by code_simp

subsection \<open>Date ranges\<close>

lemma daysInMonth_le: "daysInMonth m \<le> 31"
  by (simp add: daysInMonth_def)

lemma isAbove_mono: "\<not> isAbove x c \<Longrightarrow> c \<le> c' \<Longrightarrow> \<not> isAbove x c'"
  by (cases x) (auto simp: isAbove_def dest: order_le_less_trans)

lemma parseNumberOrDate_date:
  assumes "parseNumberOrDate tokens first i = Inr (MonthDay d, j)"
  shows "validDate d"
proof -
  from assms obtain num dd where "d = Date num dd" "\<not> isBelow num 1" "\<not> isAbove num 12"
    "\<not> isBelow dd 1" "\<not> isAbove dd (daysInMonth (monthBefore num))"
    unfolding parseNumberOrDate_def
    by (auto split: sum.splits option.splits if_splits prod.splits)
  then show ?thesis
    using isAbove_mono [OF _ daysInMonth_le, of dd "monthBefore num"]
    by (simp add: validDate_def)
qed

lemma literalValue_dates:
  assumes "literalValue tokens first i = Inr (dates l h, j)"
  shows "validDate l \<and> validDate h"
  using assms unfolding literalValue_def literalLow_def literalRange_def
  by (auto dest!: parseNumberOrDate_date
           split: sum.splits option.splits if_splits prod.splits bound.splits)

lemma literalArgument_fields:
  assumes "literalArgument tokens first excl i = Inr (a, j)"
  shows "isExclude a = excl \<and> firstToken a = first
       \<and> (\<exists>j'. literalValue tokens first i = Inr (avalue a, j'))"
  using assms unfolding literalArgument_def
  by (auto split: sum.splits prod.splits)

lemma compileArgument_dates:
  "compileArgument name Dates mn mx
           \<lparr> avalue = dates l h, isExclude = x, modulus = m, firstToken = t \<rparr> =
     (if (case m of None \<Rightarrow> False | Some k \<Rightarrow> isBelow k 0)
      then Inl (SyntaxError ''Modulus value cannot be negative.'' t)
      else Inr ((Dates, x),
                \<lparr> low = MonthDay (Date (toInt32 (month l) - 1) (toInt32 (day l))),
                  high = MonthDay (Date (toInt32 (month h) - 1) (toInt32 (day h))),
                  split = (toInt32 (month l) > toInt32 (month h)
                           \<or> toInt32 (month l) = toInt32 (month h)
                             \<and> toInt32 (day l) > toInt32 (day h)),
                  rmodulus = m \<rparr>))"
  by (auto simp: compileArgument_def normalizeDates_def negativeModulus_def Let_def)

lemma validDate_whole:
  assumes "validDate (map_date ofInt d)"
  shows "map_date toInt32 (map_date ofInt d) = d"
proof (cases d)
  case (Date m dd)
  with assms have "1 \<le> m" "m \<le> 12" "1 \<le> dd" "dd \<le> 31"
    by (simp_all add: validDate_def isBelow_def isAbove_def)
  then have "toInt32 (ofInt m) = m" "toInt32 (ofInt dd) = dd"
    by (simp_all add: toInt32_id)
  with Date show ?thesis by simp
qed

text \<open>
  C6. \<open>date(11/15-2/1)\<close> compiles to a range that is split, from month 10 day 15 to
  month 1 day 1. More generally a date range that \<open>buildArgument\<close> has parsed compiles,
  in a \<open>dates\<close> expression and when it compiles, to the range of the two dates with
  both months decremented, marked split exactly when the low month and day exceed the
  high month and day lexicographically; it compiles when its modulus is not negative.
  The months and days compared and stored are the ones of the argument after \<open>|= 0\<close>
  (lines 435 to 438): they are the ones of the argument when these are integers.
\<close>

theorem date_range_split:
  assumes "literalArgument tokens first excl i = Inr (a, j)"
    and "avalue a = dates l h"
    and "fieldOf (toLowerCase nm) = Some (Dates, mn, mx)"
    and "lo = map_date toInt32 l" and "hi = map_date toInt32 h"
  shows "scheduleProperties ''date(11/15-2/1)'' =
           Some (Inr [[((Seconds, False), [Range_new 0 0]), ((Minutes, False), [Range_new 0 0]),
                       ((Hours, False), [Range_new 0 0]),
                       ((Dates, False),
                        [\<lparr> low = MonthDay (Date 10 15), high = MonthDay (Date 1 1),
                           split = True, rmodulus = None \<rparr>])]])
       \<and> (\<forall>rule. compileGroup [Expression nm [Arg a] tok] = Inr (Some rule) \<longrightarrow>
            rule (Dates, excl) =
              Some [\<lparr> low = MonthDay (Date (month lo - 1) (day lo)),
                      high = MonthDay (Date (month hi - 1) (day hi)),
                      split = (month lo > month hi \<or> month lo = month hi \<and> day lo > day hi),
                      rmodulus = modulus a \<rparr>])
       \<and> ((\<forall>k. modulus a = Some k \<longrightarrow> \<not> isBelow k 0) \<longrightarrow>
            (\<exists>rule. compileGroup [Expression nm [Arg a] tok] = Inr (Some rule)))
       \<and> (\<forall>d e. l = map_date ofInt d \<and> h = map_date ofInt e \<longrightarrow> lo = d \<and> hi = e)"
proof -
  have ex: "scheduleProperties ''date(11/15-2/1)'' =
           Some (Inr [[((Seconds, False), [Range_new 0 0]), ((Minutes, False), [Range_new 0 0]),
                       ((Hours, False), [Range_new 0 0]),
                       ((Dates, False),
                        [\<lparr> low = MonthDay (Date 10 15), high = MonthDay (Date 1 1),
                           split = True, rmodulus = None \<rparr>])]])"
    by code_simp
  from literalArgument_fields [OF assms(1)] assms(2)
  obtain j' where a: "isExclude a = excl" "firstToken a = first"
    and v: "literalValue tokens first i = Inr (dates l h, j')"
    by auto
  note valid = literalValue_dates [OF v]
  have a_eq: "a = \<lparr> avalue = dates l h, isExclude = excl, modulus = modulus a, firstToken = first \<rparr>"
    using a assms(2) by simp
  have m: "month lo = toInt32 (month l)" "day lo = toInt32 (day l)"
    "month hi = toInt32 (month h)" "day hi = toInt32 (day h)"
    unfolding assms(4,5) by (cases l; cases h; simp)+
  have c: "compileArgument (toLowerCase nm) Dates mn mx a =
     (if (case modulus a of None \<Rightarrow> False | Some k \<Rightarrow> isBelow k 0)
      then Inl (SyntaxError ''Modulus value cannot be negative.'' first)
      else Inr ((Dates, excl),
                \<lparr> low = MonthDay (Date (month lo - 1) (day lo)),
                  high = MonthDay (Date (month hi - 1) (day hi)),
                  split = (month lo > month hi \<or> month lo = month hi \<and> day lo > day hi),
                  rmodulus = modulus a \<rparr>))"
    using compileArgument_dates [of "toLowerCase nm" mn mx l h excl "modulus a" first] a_eq
    unfolding m by simp
  have 1: "rule (Dates, excl) =
              Some [\<lparr> low = MonthDay (Date (month lo - 1) (day lo)),
                      high = MonthDay (Date (month hi - 1) (day hi)),
                      split = (month lo > month hi \<or> month lo = month hi \<and> day lo > day hi),
                      rmodulus = modulus a \<rparr>]"
    if "compileGroup [Expression nm [Arg a] tok] = Inr (Some rule)" for rule
    using compileGroup_single_Inr_iff [OF assms(3) that] c
    by (auto split: if_splits)
  have 2: "\<exists>rule. compileGroup [Expression nm [Arg a] tok] = Inr (Some rule)"
    if "\<forall>k. modulus a = Some k \<longrightarrow> \<not> isBelow k 0"
  proof -
    from that have "\<not> (case modulus a of None \<Rightarrow> False | Some k \<Rightarrow> isBelow k 0)"
      by (auto split: option.splits)
    with c have "\<exists>p r. compileArgument (toLowerCase nm) Dates mn mx a = Inr (p, r)"
      by simp
    then show ?thesis using compileGroup_single_Inr [OF assms(3)] by blast
  qed
  have 3: "lo = d \<and> hi = e" if "l = map_date ofInt d \<and> h = map_date ofInt e" for d e
    using valid that validDate_whole [of d] validDate_whole [of e] assms(4,5) by simp
  from ex 1 2 3 show ?thesis by (intro conjI) blast+
qed

theorem date_range_split_witness:
  "\<exists>rule. compileGroup [Expression ''date''
              [Arg \<lparr> avalue = dates (Date (Finite 12) (Finite 30)) (Date (Finite 1) (Finite 2)),
                     isExclude = False, modulus = None,
                     firstToken = Token_new 5 ''12'' False \<rparr>] (Token_new 0 ''date'' False)]
            = Inr (Some rule)
          \<and> rule (Dates, False) =
              Some [\<lparr> low = MonthDay (Date 11 30), high = MonthDay (Date 0 2),
                      split = True, rmodulus = None \<rparr>]"
proof -
  have p: "literalArgument (tokenize ''date(12/30-1/2)'') (Token_new 5 ''12'' False) False 2 =
      Inr (\<lparr> avalue = dates (Date (Finite 12) (Finite 30)) (Date (Finite 1) (Finite 2)),
              isExclude = False, modulus = None,
              firstToken = Token_new 5 ''12'' False \<rparr>, 9)"
    by code_simp
  have f: "fieldOf (toLowerCase ''date'') = Some (Dates, 1, 31)" by code_simp
  have n: "toInt32 (Finite 12) = 12" "toInt32 (Finite 30) = 30" "toInt32 (Finite 1) = 1"
    "toInt32 (Finite 2) = 2" by code_simp+
  let ?a = "\<lparr> avalue = dates (Date (Finite 12) (Finite 30)) (Date (Finite 1) (Finite 2)),
               isExclude = False, modulus = None, firstToken = Token_new 5 ''12'' False \<rparr>"
  have av: "avalue ?a = dates (Date (Finite 12) (Finite 30)) (Date (Finite 1) (Finite 2))"
    by simp
  note th = date_range_split [OF p av f refl refl, of "Token_new 0 ''date'' False"]
  from th [THEN conjunct2, THEN conjunct1]
  have A: "\<forall>rule. compileGroup [Expression ''date'' [Arg ?a] (Token_new 0 ''date'' False)]
              = Inr (Some rule) \<longrightarrow>
            rule (Dates, False) =
              Some [\<lparr> low = MonthDay (Date 11 30), high = MonthDay (Date 0 2),
                      split = True, rmodulus = None \<rparr>]"
    by (simp add: n)
  from th [THEN conjunct2, THEN conjunct2, THEN conjunct1]
  have B: "\<exists>rule. compileGroup [Expression ''date'' [Arg ?a] (Token_new 0 ''date'' False)]
              = Inr (Some rule)"
    by simp
  from A B show ?thesis by blast
qed

subsection \<open>Implied values\<close>

lemma compileGroup_Some:
  assumes "compileGroup expressions = Inr (Some rule)"
  shows "\<exists>r. compileGroup_loop expressions (Map.empty, False) = Inr (r, True)
            \<and> rule = impliedValues r"
  using assms unfolding compileGroup_def
  by (auto split: sum.splits prod.splits if_splits)

text \<open>
  C7. When \<open>compileGroup\<close> returns a rule, the loop over the expressions has set the
  properties of a rule \<open>r\<close>, and the rule returned is \<open>r\<close> with the implied values:
  nothing more when \<open>seconds\<close> or \<open>secondsExclude\<close> is set; \<open>seconds\<close> at \<open>[Range(0,0)]\<close>
  when neither is set and \<open>minutes\<close> or \<open>minutesExclude\<close> is; \<open>seconds\<close> and \<open>minutes\<close>
  when none of the four is set and \<open>hours\<close> or \<open>hoursExclude\<close> is; \<open>seconds\<close>,
  \<open>minutes\<close> and \<open>hours\<close> when none of the six is set, as in \<open>date(1/1)\<close>.
\<close>

theorem implied_values:
  assumes "compileGroup expressions = Inr (Some rule)"
  shows "scheduleProperties ''date(1/1)'' =
           Some (Inr [[((Seconds, False), [Range_new 0 0]), ((Minutes, False), [Range_new 0 0]),
                       ((Hours, False), [Range_new 0 0]),
                       ((Dates, False),
                        [\<lparr> low = MonthDay (Date 0 1), high = MonthDay (Date 0 1),
                           split = False, rmodulus = None \<rparr>])]])
       \<and> (\<exists>r. compileGroup_loop expressions (Map.empty, False) = Inr (r, True) \<and>
            (let s = (r (Seconds, False) \<noteq> None \<or> r (Seconds, True) \<noteq> None);
                 m = (r (Minutes, False) \<noteq> None \<or> r (Minutes, True) \<noteq> None);
                 h = (r (Hours, False) \<noteq> None \<or> r (Hours, True) \<noteq> None)
             in (s \<longrightarrow> rule = r)
              \<and> (\<not> s \<and> m \<longrightarrow> rule = r((Seconds, False) \<mapsto> [Range_new 0 0]))
              \<and> (\<not> s \<and> \<not> m \<and> h \<longrightarrow>
                   rule = r((Seconds, False) \<mapsto> [Range_new 0 0],
                            (Minutes, False) \<mapsto> [Range_new 0 0]))
              \<and> (\<not> s \<and> \<not> m \<and> \<not> h \<longrightarrow>
                   rule = r((Seconds, False) \<mapsto> [Range_new 0 0],
                            (Minutes, False) \<mapsto> [Range_new 0 0],
                            (Hours, False) \<mapsto> [Range_new 0 0]))))"
proof -
  have ex: "scheduleProperties ''date(1/1)'' =
           Some (Inr [[((Seconds, False), [Range_new 0 0]), ((Minutes, False), [Range_new 0 0]),
                       ((Hours, False), [Range_new 0 0]),
                       ((Dates, False),
                        [\<lparr> low = MonthDay (Date 0 1), high = MonthDay (Date 0 1),
                           split = False, rmodulus = None \<rparr>])]])"
    by code_simp
  from compileGroup_Some [OF assms] obtain r
    where r: "compileGroup_loop expressions (Map.empty, False) = Inr (r, True)"
      and rule: "rule = impliedValues r"
    by blast
  have "let s = (r (Seconds, False) \<noteq> None \<or> r (Seconds, True) \<noteq> None);
                 m = (r (Minutes, False) \<noteq> None \<or> r (Minutes, True) \<noteq> None);
                 h = (r (Hours, False) \<noteq> None \<or> r (Hours, True) \<noteq> None)
             in (s \<longrightarrow> rule = r)
              \<and> (\<not> s \<and> m \<longrightarrow> rule = r((Seconds, False) \<mapsto> [Range_new 0 0]))
              \<and> (\<not> s \<and> \<not> m \<and> h \<longrightarrow>
                   rule = r((Seconds, False) \<mapsto> [Range_new 0 0],
                            (Minutes, False) \<mapsto> [Range_new 0 0]))
              \<and> (\<not> s \<and> \<not> m \<and> \<not> h \<longrightarrow>
                   rule = r((Seconds, False) \<mapsto> [Range_new 0 0],
                            (Minutes, False) \<mapsto> [Range_new 0 0],
                            (Hours, False) \<mapsto> [Range_new 0 0]))"
    unfolding rule impliedValues_def Let_def by simp
  with r ex show ?thesis by blast
qed

text \<open>The group of \<open>hour(9)\<close> alone: \<open>seconds\<close> and \<open>minutes\<close> are implied.\<close>

theorem implied_values_witness:
  "\<exists>rule. compileGroup [Expression ''hour''
              [Arg \<lparr> avalue = number (Finite 9), isExclude = False, modulus = None,
                     firstToken = Token_new 5 ''9'' False \<rparr>] (Token_new 0 ''hour'' False)]
            = Inr (Some rule)
          \<and> rule = [(Hours, False) \<mapsto> [Range_new 9 9], (Seconds, False) \<mapsto> [Range_new 0 0],
                    (Minutes, False) \<mapsto> [Range_new 0 0]]"
proof -
  let ?es = "[Expression ''hour''
              [Arg \<lparr> avalue = number (Finite 9), isExclude = False, modulus = None,
                     firstToken = Token_new 5 ''9'' False \<rparr>] (Token_new 0 ''hour'' False)]"
  have f: "fieldOf (toLowerCase ''hour'') = Some (Hours, 0, 23)" by code_simp
  have n: "toInt32 (Finite 9) = 9" by code_simp
  have l: "compileGroup_loop ?es (Map.empty, False) = Inr ([(Hours, False) \<mapsto> [Range_new 9 9]], True)"
    by (simp add: compileExpression_def f compileArgument_number validate_def n
        pushRange_def Range_new_def)
  then have c: "compileGroup ?es = Inr (Some (impliedValues [(Hours, False) \<mapsto> [Range_new 9 9]]))"
    by (simp add: compileGroup_def)
  from implied_values [OF c] l
  have "impliedValues [(Hours, False) \<mapsto> [Range_new 9 9]] =
      [(Hours, False) \<mapsto> [Range_new 9 9], (Seconds, False) \<mapsto> [Range_new 0 0],
                    (Minutes, False) \<mapsto> [Range_new 0 0]]"
    by (simp add: Let_def)
  with c show ?thesis by simp
qed

subsection \<open>Exclusion\<close>

lemma compileArgument_property:
  "compileArgument name F mn mx a = Inr (p, r) \<Longrightarrow> p = (F, isExclude a)"
  unfolding compileArgument_def
  by (auto split: sum.splits prod.splits if_splits)

lemma compileArguments_lists:
  assumes "compileArguments name F mn mx args (rule, b) = Inr (rule', b')"
  shows "listOf (rule' (F, x)) = listOf (rule (F, x)) @ compiledRanges name F mn mx x args
       \<and> (G \<noteq> F \<longrightarrow> rule' (G, y) = rule (G, y))"
  using assms
proof (induction args arbitrary: rule b)
  case Nil
  then show ?case by (simp add: compiledRanges_def)
next
  case (Cons nd args)
  show ?case
  proof (cases nd)
    case (Expression nm as tok)
    with Cons.prems show ?thesis by simp
  next
    case (Arg a)
    with Cons.prems obtain p r where c: "compileArgument name F mn mx a = Inr (p, r)"
      and rest: "compileArguments name F mn mx args (pushRange rule p r, True) = Inr (rule', b')"
      by (auto split: sum.splits)
    from compileArgument_property [OF c] have p: "p = (F, isExclude a)" .
    from Cons.IH [OF rest]
    have IH: "listOf (rule' (F, x)) =
        listOf (pushRange rule p r (F, x)) @ compiledRanges name F mn mx x args"
      and IH2: "G \<noteq> F \<longrightarrow> rule' (G, y) = pushRange rule p r (G, y)"
      by simp_all
    have 1: "listOf (pushRange rule p r (F, x)) =
        listOf (rule (F, x)) @ (if isExclude a = x then [r] else [])"
      by (auto simp: pushRange_def p listOf_def split: option.splits)
    have 2: "compiledRanges name F mn mx x (nd # args) =
        (if isExclude a = x then [r] else []) @ compiledRanges name F mn mx x args"
      by (simp add: compiledRanges_def Arg c)
    have 3: "G \<noteq> F \<longrightarrow> pushRange rule p r (G, y) = rule (G, y)"
      by (simp add: pushRange_def p)
    from IH IH2 1 2 3 show ?thesis by simp
  qed
qed

lemma literalArgument_isExclude:
  "literalArgument tokens first excl i = Inr (a, j) \<Longrightarrow> isExclude a = excl"
  unfolding literalArgument_def by (auto split: sum.splits prod.splits)

lemma argumentStart_excl:
  assumes "argumentStart tokens i = Inr (first, excl, i1, t)"
  shows "tokenAt tokens i = Some first \<and> excl = (tvalue first = ''!'')"
  using assms unfolding argumentStart_def ensureToken_def
  by (auto split: sum.splits option.splits if_splits)

lemma buildArgument_exclusion:
  assumes "buildArgument n tokens i context = Some (Inr (j, context'))"
    and "tokenAt tokens i = Some b"
  shows "context' = context
       \<or> (\<exists>a. context' = context @ [Arg a] \<and> isExclude a = (tvalue b = ''!''))
       \<or> (tvalue b \<noteq> ''!'' \<and> (\<exists>nm as tok. context' = context @ [Expression nm as tok]))"
proof (cases n)
  case 0
  with assms show ?thesis by simp
next
  case (Suc k)
  from assms(1) Suc obtain first excl i1 t
    where s: "argumentStart tokens i = Inr (first, excl, i1, t)"
    by (auto split: sum.splits)
  from argumentStart_excl [OF s] assms(2)
  have e: "excl = (tvalue b = ''!'')" by simp
  consider (paren) "isSpecial t \<and> tvalue t = '')''"
    | (expr) "\<not> (isSpecial t \<and> tvalue t = '')'')" "\<not> (isSpecial t \<and> tvalue t = '','')"
        "isExpression t"
    | (lit) "\<not> (isSpecial t \<and> tvalue t = '')'')" "\<not> (isSpecial t \<and> tvalue t = '','')"
        "\<not> isExpression t"
    | (comma) "\<not> (isSpecial t \<and> tvalue t = '')'')" "isSpecial t \<and> tvalue t = '',''"
    by blast
  then show ?thesis
  proof cases
    case paren
    with assms(1) Suc s show ?thesis by simp
  next
    case expr
    with assms(1) Suc s have ne: "\<not> excl"
      and be: "buildExpression k tokens i1 context = Some (Inr (j, context'))"
      by (auto split: if_splits)
    from be have "\<exists>nm as tok. context' = context @ [Expression nm as tok]"
      by (cases k) (auto simp: expressionEnd_def split: sum.splits option.splits if_splits)
    with ne e show ?thesis by blast
  next
    case lit
    with assms(1) Suc s have "pushLiteral tokens first excl i1 context = Inr (j, context')"
      by simp
    then obtain a where "literalArgument tokens first excl i1 = Inr (a, j)"
      and "context' = context @ [Arg a]"
      by (auto simp: pushLiteral_def split: sum.splits prod.splits)
    with literalArgument_isExclude [of tokens first excl i1 a j] e show ?thesis by blast
  next
    case comma
    with assms(1) Suc s show ?thesis by simp
  qed
qed

text \<open>
  C8. \<open>hour(9-17, !12)\<close> compiles to \<open>hours = [Range(9,17)]\<close> and
  \<open>hoursExclude = [Range(12,12)]\<close>. In general, an argument that \<open>buildArgument\<close> pushes
  is marked excluded exactly when its first token is \<open>!\<close>; and the loop over the
  arguments of an expression of the field \<open>F\<close> appends to the \<open>Exclude\<close> list of \<open>F\<close> the
  ranges of the excluded arguments and no other, to the main list of \<open>F\<close> the ranges of
  the other arguments and no other, and leaves the lists of the other fields as they are.
\<close>

theorem excluded_arguments_lists:
  assumes "compileArguments name F mn mx args (rule, b) = Inr (rule', b')"
  shows "scheduleProperties ''hour(9-17, !12)'' =
           Some (Inr [[((Seconds, False), [Range_new 0 0]), ((Minutes, False), [Range_new 0 0]),
                       ((Hours, False), [Range_new 9 17]), ((Hours, True), [Range_new 12 12])]])
       \<and> (\<forall>n tokens i context j context' t.
            buildArgument n tokens i context = Some (Inr (j, context')) \<and>
            tokenAt tokens i = Some t \<longrightarrow>
              context' = context
            \<or> (\<exists>a. context' = context @ [Arg a] \<and> isExclude a = (tvalue t = ''!''))
            \<or> (tvalue t \<noteq> ''!'' \<and> (\<exists>nm as tok. context' = context @ [Expression nm as tok])))
       \<and> listOf (rule' (F, True)) =
            listOf (rule (F, True)) @ compiledRanges name F mn mx True args
       \<and> listOf (rule' (F, False)) =
            listOf (rule (F, False)) @ compiledRanges name F mn mx False args
       \<and> (\<forall>G x. G \<noteq> F \<longrightarrow> rule' (G, x) = rule (G, x))"
proof -
  have ex: "scheduleProperties ''hour(9-17, !12)'' =
           Some (Inr [[((Seconds, False), [Range_new 0 0]), ((Minutes, False), [Range_new 0 0]),
                       ((Hours, False), [Range_new 9 17]), ((Hours, True), [Range_new 12 12])]])"
    by code_simp
  have p: "\<forall>n tokens i context j context' t.
            buildArgument n tokens i context = Some (Inr (j, context')) \<and>
            tokenAt tokens i = Some t \<longrightarrow>
              context' = context
            \<or> (\<exists>a. context' = context @ [Arg a] \<and> isExclude a = (tvalue t = ''!''))
            \<or> (tvalue t \<noteq> ''!'' \<and> (\<exists>nm as tok. context' = context @ [Expression nm as tok]))"
    using buildArgument_exclusion by blast
  from compileArguments_lists [OF assms]
  have l: "listOf (rule' (F, True)) =
            listOf (rule (F, True)) @ compiledRanges name F mn mx True args"
    "listOf (rule' (F, False)) =
            listOf (rule (F, False)) @ compiledRanges name F mn mx False args"
    "\<forall>G x. G \<noteq> F \<longrightarrow> rule' (G, x) = rule (G, x)"
    by blast+
  from ex p l show ?thesis by (intro conjI)
qed

text \<open>The arguments of \<open>hour(9-17, !12)\<close>, on the empty rule.\<close>

theorem excluded_arguments_lists_witness:
  "\<exists>rule'. compileArguments ''hour'' Hours 0 23
       [Arg \<lparr> avalue = range (Finite 9) (Finite 17), isExclude = False, modulus = None,
               firstToken = Token_new 5 ''9'' False \<rparr>,
        Arg \<lparr> avalue = number (Finite 12), isExclude = True, modulus = None,
               firstToken = Token_new 11 ''!'' True \<rparr>] (Map.empty, False) = Inr (rule', True)
     \<and> listOf (rule' (Hours, True)) = [Range_new 12 12]
     \<and> listOf (rule' (Hours, False)) = [Range_new 9 17]"
proof -
  let ?args = "[Arg \<lparr> avalue = range (Finite 9) (Finite 17), isExclude = False, modulus = None,
               firstToken = Token_new 5 ''9'' False \<rparr>,
        Arg \<lparr> avalue = number (Finite 12), isExclude = True, modulus = None,
               firstToken = Token_new 11 ''!'' True \<rparr>]"
  have n: "toInt32 (Finite 9) = 9" "toInt32 (Finite 17) = 17" "toInt32 (Finite 12) = 12"
    by code_simp+
  have c: "compileArgument ''hour'' Hours 0 23
             \<lparr> avalue = range (Finite 9) (Finite 17), isExclude = False, modulus = None,
               firstToken = Token_new 5 ''9'' False \<rparr> = Inr ((Hours, False), Range_new 9 17)"
    "compileArgument ''hour'' Hours 0 23
             \<lparr> avalue = number (Finite 12), isExclude = True, modulus = None,
               firstToken = Token_new 11 ''!'' True \<rparr> = Inr ((Hours, True), Range_new 12 12)"
    by (simp_all add: compileArgument_range compileArgument_number validate_def n
        Range_new_def)
  then obtain rule' where r: "compileArguments ''hour'' Hours 0 23 ?args (Map.empty, False)
      = Inr (rule', True)"
    by simp
  from excluded_arguments_lists [OF r] c
  have "listOf (rule' (Hours, True)) = [Range_new 12 12]
      \<and> listOf (rule' (Hours, False)) = [Range_new 9 17]"
    by (simp add: compiledRanges_def listOf_def)
  with r show ?thesis by blast
qed

section \<open>Properties of the parser\<close>

subsection \<open>The cursor moves forward\<close>

lemma tokenAt_Some: "tokenAt tokens i = Some t \<Longrightarrow> i < length tokens \<and> t = tokens ! i"
  by (auto simp: tokenAt_def split: if_splits)

lemma ensureToken_Inr: "ensureToken tokens i = Inr t \<Longrightarrow> tokenAt tokens i = Some t"
  by (auto simp: ensureToken_def split: option.splits if_splits)

lemma parseNumber_cursor:
  "parseNumber tokens i = Inr (v, j) \<Longrightarrow> i < j \<and> j < length tokens"
  by (auto simp: parseNumber_def Let_def dest!: ensureToken_Inr tokenAt_Some
           split: option.splits if_splits sum.splits)

lemma parseNumberOrDate_cursor:
  "parseNumberOrDate tokens first i = Inr (b, j) \<Longrightarrow> i < j \<and> j < length tokens"
  by (fastforce simp: parseNumberOrDate_def dest!: parseNumber_cursor
           split: option.splits if_splits sum.splits prod.splits)

lemma literalValue_cursor:
  "literalValue tokens first i = Inr (v, j) \<Longrightarrow>
     (v = wildcard \<and> j = i \<and> (\<exists>t. tokenAt tokens i = Some t \<and> tvalue t = ''%'')) \<or> i < j"
  unfolding literalValue_def literalLow_def literalRange_def
  by (auto dest!: parseNumberOrDate_cursor ensureToken_Inr
           split: option.splits if_splits sum.splits prod.splits bound.splits)

lemma modulusPart_cursor:
  "modulusPart tokens i = Inr (m, j) \<Longrightarrow>
     (if \<exists>t. tokenAt tokens i = Some t \<and> tvalue t = ''%'' then i < j else i = j)"
  unfolding modulusPart_def
  by (auto dest!: parseNumber_cursor split: option.splits if_splits sum.splits prod.splits)

lemma literalArgument_cursor:
  "literalArgument tokens first excl i = Inr (a, j) \<Longrightarrow> i < j"
  unfolding literalArgument_def
  by (auto dest!: literalValue_cursor modulusPart_cursor split: sum.splits prod.splits if_splits)

lemma argumentStart_cursor:
  assumes "argumentStart tokens i = Inr (first, excl, i1, t)"
  shows "tokenAt tokens i = Some first \<and> tokenAt tokens i1 = Some t
       \<and> (if tvalue first = ''!'' then excl \<and> i1 = i + 1 else \<not> excl \<and> i1 = i \<and> t = first)"
  using assms unfolding argumentStart_def
  by (auto dest!: ensureToken_Inr split: sum.splits if_splits)

lemma skipComma_ge: "j \<le> skipComma tokens j"
  by (simp add: skipComma_def split: option.splits)

lemma build_cursor:
  "buildArgument n tokens i context = Some (Inr r) \<Longrightarrow>
     i \<le> fst r \<and> ((\<forall>t. tokenAt tokens i = Some t \<longrightarrow> tvalue t \<noteq> '')'') \<longrightarrow> i < fst r)"
  "buildExpression n tokens i context = Some (Inr r) \<Longrightarrow> i + 2 < fst r"
  "buildArguments n tokens i args = Some (Inr r) \<Longrightarrow> i \<le> fst r"
proof (induction n tokens i "context" and n tokens i "context" and n tokens i args
       arbitrary: r and r and r rule: buildArgument_buildExpression_buildArguments.induct)
  case (1 tokens i ctx)
  then show ?case by simp
next
  case (2 n tokens i ctx)
  from "2.prems" obtain first excl i1 t
    where s: "argumentStart tokens i = Inr (first, excl, i1, t)"
    by (auto split: sum.splits)
  note sc = argumentStart_cursor [OF s]
  consider (paren) "isSpecial t \<and> tvalue t = '')''"
    | (expr) "\<not> (isSpecial t \<and> tvalue t = '')'')" "\<not> (isSpecial t \<and> tvalue t = '','')"
        "isExpression t" "\<not> excl"
    | (lit) "\<not> (isSpecial t \<and> tvalue t = '')'')" "\<not> (isSpecial t \<and> tvalue t = '','')"
        "\<not> isExpression t"
    | (err) "\<not> (isSpecial t \<and> tvalue t = '')'')"
        "(isSpecial t \<and> tvalue t = '','') \<or> (isExpression t \<and> excl)"
    by blast
  then show ?case
  proof cases
    case paren
    with "2.prems" s have "fst r = i1" by auto
    with sc paren show ?thesis by (auto split: if_splits)
  next
    case expr
    with "2.prems" s have be: "buildExpression n tokens i1 ctx = Some (Inr r)" by simp
    from "2.IH" [OF s refl refl refl _ _ _ _ be] expr
    have "i1 + 2 < fst r" by simp
    with sc show ?thesis by (auto split: if_splits)
  next
    case lit
    with "2.prems" s have "pushLiteral tokens first excl i1 ctx = Inr r" by simp
    then have "i1 < fst r"
      by (auto simp: pushLiteral_def dest!: literalArgument_cursor split: sum.splits prod.splits)
    with sc show ?thesis by (auto split: if_splits)
  next
    case err
    with "2.prems" s show ?thesis by (auto split: if_splits)
  qed
next
  case (3 tokens i ctx)
  then show ?case by simp
next
  case (4 n tokens i ctx)
  from "4.prems" obtain cmd where s: "expressionStart tokens i = Inr cmd"
    by (auto split: sum.splits)
  with "4.prems" obtain r' where a: "buildArguments n tokens (i + 2) [] = Some (Inr r')"
    and e: "expressionEnd tokens cmd ctx r' = Inr r"
    by (auto split: option.splits sum.splits)
  from "4.IH" [OF s a] have "i + 2 \<le> fst r'" .
  moreover from e have "fst r = fst r' + 1"
    by (auto simp: expressionEnd_def split: option.splits if_splits)
  ultimately show ?case by simp
next
  case (5 tokens i args)
  then show ?case by simp
next
  case (6 n tokens i args)
  show ?case
  proof (cases "tokenAt tokens i")
    case None
    with "6.prems" show ?thesis by auto
  next
    case (Some t)
    show ?thesis
    proof (cases "tvalue t = '')''")
      case True
      with "6.prems" Some show ?thesis by auto
    next
      case False
      with "6.prems" Some obtain r' where a: "buildArgument n tokens i args = Some (Inr r')"
        and l: "buildArguments n tokens (skipComma tokens (fst r')) (snd r') = Some (Inr r)"
        by (auto split: option.splits sum.splits)
      from "6.IH"(1) [OF Some False a] have "i \<le> fst r'" by simp
      moreover from "6.IH"(2) [OF Some False a refl l]
      have "skipComma tokens (fst r') \<le> fst r" .
      ultimately show ?thesis using skipComma_ge [of "fst r'" tokens] by simp
    qed
  qed
qed

subsection \<open>The parser returns\<close>

text \<open>
  With a bound of three times the number of the tokens that are left, and one to three
  more, each of the three functions returns: the bound is not reached.
\<close>

lemma build_returns:
  "3 * (length tokens - i) + 2 \<le> n \<Longrightarrow> \<exists>r. buildArgument n tokens i ctx = Some r"
  "3 * (length tokens - i) + 1 \<le> n \<Longrightarrow> \<exists>r. buildExpression n tokens i ctx = Some r"
  "3 * (length tokens - i) + 3 \<le> n \<Longrightarrow> \<exists>r. buildArguments n tokens i args = Some r"
proof (induction n tokens i ctx and n tokens i ctx and n tokens i args
       rule: buildArgument_buildExpression_buildArguments.induct)
  case (1 tokens i ctx)
  then show ?case by simp
next
  case (2 n tokens i ctx)
  show ?case
  proof (cases "argumentStart tokens i")
    case (Inl e)
    then show ?thesis by simp
  next
    case (Inr s)
    obtain first excl i1 t where s: "s = (first, excl, i1, t)" by (cases s) auto
    note sc = argumentStart_cursor [OF Inr [unfolded s]]
    show ?thesis
    proof (cases "\<not> (isSpecial t \<and> tvalue t = '')'') \<and> \<not> (isSpecial t \<and> tvalue t = '','')
                  \<and> isExpression t \<and> \<not> excl")
      case True
      with sc have "i1 = i" by (auto split: if_splits)
      with "2.prems" have "3 * (length tokens - i1) + 1 \<le> n" by simp
      from "2.IH" [OF Inr [unfolded s] refl refl refl _ _ _ _ this] True
      obtain r where "buildExpression n tokens i1 ctx = Some r" by auto
      with Inr s True show ?thesis by simp
    next
      case False
      with Inr s show ?thesis by auto
    qed
  qed
next
  case (3 tokens i ctx)
  then show ?case by simp
next
  case (4 n tokens i ctx)
  show ?case
  proof (cases "expressionStart tokens i")
    case (Inl e)
    then show ?thesis by simp
  next
    case (Inr cmd)
    then have "i + 1 < length tokens"
      by (auto simp: expressionStart_def dest!: tokenAt_Some split: option.splits if_splits)
    with "4.prems" have "3 * (length tokens - (i + 2)) + 3 \<le> n" by simp
    from "4.IH" [OF Inr this] obtain r where "buildArguments n tokens (i + 2) [] = Some r" ..
    with Inr show ?thesis by (cases r) auto
  qed
next
  case (5 tokens i args)
  then show ?case by simp
next
  case (6 n tokens i args)
  show ?case
  proof (cases "tokenAt tokens i")
    case None
    then show ?thesis by simp
  next
    case (Some t)
    show ?thesis
    proof (cases "tvalue t = '')''")
      case True
      with Some show ?thesis by simp
    next
      case False
      from tokenAt_Some [OF Some] have il: "i < length tokens" by simp
      with "6.prems" have "3 * (length tokens - i) + 2 \<le> n" by simp
      from "6.IH"(1) [OF Some False this] obtain r where r: "buildArgument n tokens i args = Some r" ..
      show ?thesis
      proof (cases r)
        case (Inl e)
        with Some False r show ?thesis by simp
      next
        case (Inr r')
        from build_cursor(1) [OF r [unfolded Inr]] Some False have "i < fst r'" by simp
        with skipComma_ge [of "fst r'" tokens] have "i < skipComma tokens (fst r')" by simp
        with "6.prems" il have "3 * (length tokens - skipComma tokens (fst r')) + 3 \<le> n"
          by simp
        from "6.IH"(2) [OF Some False r [unfolded Inr] refl this]
        obtain r2 where "buildArguments n tokens (skipComma tokens (fst r')) (snd r') = Some r2" ..
        with Some False r Inr show ?thesis by simp
      qed
    qed
  qed
qed

text \<open>What is returned does not depend on the bound.\<close>

lemma build_mono:
  "buildArgument n tokens i ctx = Some r \<Longrightarrow> n \<le> m \<Longrightarrow> buildArgument m tokens i ctx = Some r"
  "buildExpression n tokens i ctx = Some r \<Longrightarrow> n \<le> m \<Longrightarrow> buildExpression m tokens i ctx = Some r"
  "buildArguments n tokens i args = Some r \<Longrightarrow> n \<le> m \<Longrightarrow> buildArguments m tokens i args = Some r"
proof (induction n tokens i ctx and n tokens i ctx and n tokens i args
       arbitrary: r m and r m and r m
       rule: buildArgument_buildExpression_buildArguments.induct)
  case (1 tokens i ctx)
  then show ?case by simp
next
  case (2 n tokens i ctx)
  from "2.prems"(2) obtain m' where m: "m = Suc m'" "n \<le> m'" by (cases m) auto
  show ?case
  proof (cases "argumentStart tokens i")
    case (Inl e)
    with "2.prems" m show ?thesis by simp
  next
    case (Inr s)
    obtain first excl i1 t where s: "s = (first, excl, i1, t)" by (cases s) auto
    show ?thesis
    proof (cases "\<not> (isSpecial t \<and> tvalue t = '')'') \<and> \<not> (isSpecial t \<and> tvalue t = '','')
                  \<and> isExpression t \<and> \<not> excl")
      case True
      with "2.prems"(1) Inr s have "buildExpression n tokens i1 ctx = Some r" by simp
      from "2.IH" [OF Inr [unfolded s] refl refl refl _ _ _ _ this m(2)] True
      have "buildExpression m' tokens i1 ctx = Some r" by simp
      with Inr s True m show ?thesis by auto
    next
      case False
      with "2.prems"(1) Inr s m show ?thesis by auto
    qed
  qed
next
  case (3 tokens i ctx)
  then show ?case by simp
next
  case (4 n tokens i ctx)
  from "4.prems"(2) obtain m' where m: "m = Suc m'" "n \<le> m'" by (cases m) auto
  show ?case
  proof (cases "expressionStart tokens i")
    case (Inl e)
    with "4.prems" m show ?thesis by simp
  next
    case (Inr cmd)
    with "4.prems"(1) obtain r' where a: "buildArguments n tokens (i + 2) [] = Some r'"
      by (auto split: option.splits)
    from "4.IH" [OF Inr a m(2)] have "buildArguments m' tokens (i + 2) [] = Some r'" .
    with a "4.prems"(1) Inr m show ?thesis by simp
  qed
next
  case (5 tokens i args)
  then show ?case by simp
next
  case (6 n tokens i args)
  from "6.prems"(2) obtain m' where m: "m = Suc m'" "n \<le> m'" by (cases m) auto
  show ?case
  proof (cases "tokenAt tokens i")
    case None
    with "6.prems" m show ?thesis by simp
  next
    case (Some t)
    show ?thesis
    proof (cases "tvalue t = '')''")
      case True
      with "6.prems" Some m show ?thesis by simp
    next
      case False
      with "6.prems"(1) Some obtain r1 where a: "buildArgument n tokens i args = Some r1"
        by (auto split: option.splits)
      from "6.IH"(1) [OF Some False a m(2)] have a': "buildArgument m' tokens i args = Some r1" .
      show ?thesis
      proof (cases r1)
        case (Inl e)
        with "6.prems"(1) Some False a a' m show ?thesis by auto
      next
        case (Inr r')
        with "6.prems"(1) Some False a
        have l: "buildArguments n tokens (skipComma tokens (fst r')) (snd r') = Some r" by simp
        from "6.IH"(2) [OF Some False a [unfolded Inr] refl l m(2)]
        have "buildArguments m' tokens (skipComma tokens (fst r')) (snd r') = Some r" .
        with Some False a' Inr m show ?thesis by auto
      qed
    qed
  qed
qed

lemma loop_returns:
  "3 * (length tokens - i) + 2 \<le> n \<Longrightarrow> \<exists>r. buildAbstractSyntaxTree_loop n tokens i ast = Some r"
proof (induction n tokens i ast rule: buildAbstractSyntaxTree_loop.induct)
  case (1 tokens i ast)
  then show ?case by simp
next
  case (2 n tokens i ast)
  show ?case
  proof (cases "tokenAt tokens i")
    case None
    then show ?thesis by simp
  next
    case (Some t)
    from tokenAt_Some [OF Some] have il: "i < length tokens" by simp
    show ?thesis
    proof (cases "isExpression t")
      case True
      from "2.prems" have "3 * (length tokens - i) + 1 \<le> n" by simp
      from build_returns(2) [OF this] obtain r where r: "buildExpression n tokens i ast = Some r" ..
      show ?thesis
      proof (cases r)
        case (Inl e)
        with Some True r show ?thesis by simp
      next
        case (Inr r')
        from build_cursor(2) [OF r [unfolded Inr]] have "i < fst r'" by simp
        with "2.prems" il have "3 * (length tokens - fst r') + 2 \<le> n" by simp
        from "2.IH"(1) [OF Some True r [unfolded Inr] refl this] Some True r Inr
        show ?thesis by simp
      qed
    next
      case False
      show ?thesis
      proof (cases "0 < i \<and> tvalue t = '',''")
        case True
        from "2.prems" il have "3 * (length tokens - (i + 1)) + 2 \<le> n" by simp
        from "2.IH"(2) [OF Some False True this] Some False True show ?thesis by simp
      next
        case c: False
        with Some False show ?thesis by auto
      qed
    qed
  qed
qed

lemma buildAbstractSyntaxTree_returns: "\<exists>r. buildAbstractSyntaxTree tokens = Some r"
  unfolding buildAbstractSyntaxTree_def by (rule loop_returns) simp

lemma schedule_returns: "\<exists>r. schedule str = Some r"
proof -
  obtain r where "buildAbstractSyntaxTree (tokenize str) = Some r"
    using buildAbstractSyntaxTree_returns by blast
  then show ?thesis by (cases r) (simp_all add: schedule_def)
qed

subsection \<open>The documents\<close>

lemma loop_document:
  "buildAbstractSyntaxTree_loop n tokens i ast = Some (Inr ast') \<Longrightarrow> document tokens i ast ast'"
proof (induction n tokens i ast rule: buildAbstractSyntaxTree_loop.induct)
  case (1 tokens i ast)
  then show ?case by simp
next
  case (2 n tokens i ast)
  show ?case
  proof (cases "tokenAt tokens i")
    case None
    with "2.prems" show ?thesis by (auto intro: document_end)
  next
    case (Some t)
    show ?thesis
    proof (cases "isExpression t")
      case True
      with "2.prems" Some obtain r
        where r: "buildExpression n tokens i ast = Some (Inr r)"
          and l: "buildAbstractSyntaxTree_loop n tokens (fst r) (snd r) = Some (Inr ast')"
        by (auto split: option.splits sum.splits)
      from "2.IH"(1) [OF Some True r refl l] have "document tokens (fst r) (snd r) ast'" .
      with Some True r show ?thesis
        by (cases r) (auto intro: document_expression)
    next
      case False
      with "2.prems" Some have c: "0 < i \<and> tvalue t = '',''"
        and l: "buildAbstractSyntaxTree_loop n tokens (i + 1) ast = Some (Inr ast')"
        by (auto split: if_splits)
      from "2.IH"(2) [OF Some False c l] Some False c show ?thesis
        by (auto intro: document_comma)
    qed
  qed
qed

lemma document_loop:
  "document tokens i ast ast' \<Longrightarrow> 3 * (length tokens - i) + 2 \<le> n \<Longrightarrow>
     buildAbstractSyntaxTree_loop n tokens i ast = Some (Inr ast')"
proof (induction arbitrary: n rule: document.induct)
  case (document_end i ast)
  then obtain k where "n = Suc k" by (cases n) auto
  with document_end show ?case by simp
next
  case (document_comma i t ast ast')
  then obtain k where k: "n = Suc k" by (cases n) auto
  from tokenAt_Some [OF document_comma.hyps(1)] have "i < length tokens" by simp
  with document_comma.prems k have "3 * (length tokens - (i + 1)) + 2 \<le> k" by simp
  from document_comma.IH [OF this] document_comma.hyps k show ?case by simp
next
  case (document_expression i t m ast j ast1 ast')
  then obtain k where k: "n = Suc k" by (cases n) auto
  from tokenAt_Some [OF document_expression.hyps(1)] have il: "i < length tokens" by simp
  from document_expression.prems k have "3 * (length tokens - i) + 1 \<le> k" by simp
  from build_returns(2) [OF this] obtain r where r: "buildExpression k tokens i ast = Some r" ..
  from build_mono(2) [OF r, of "max k m"] build_mono(2) [OF document_expression.hyps(3), of "max k m"]
  have r': "r = Inr (j, ast1)" by simp
  from build_cursor(2) [OF document_expression.hyps(3)] have "i < j" by simp
  with document_expression.prems k il have "3 * (length tokens - j) + 2 \<le> k" by simp
  from document_expression.IH [OF this] document_expression.hyps(1,2) r r' k
  show ?case by simp
qed

subsection \<open>Expressions side by side\<close>

text \<open>
  What the parser returns on some tokens, when it returns without an error, it returns
  on these tokens with others before and after them, the cursors moved by the number
  of the tokens before.
\<close>

lemma tokenAt_window:
  "tokenAt ts i = Some t \<Longrightarrow> tokenAt (pre @ ts @ post) (length pre + i) = Some t"
  by (auto simp: tokenAt_def nth_append split: if_splits)

lemma ensureToken_window:
  assumes "ensureToken ts i = Inr t"
  shows "ensureToken (pre @ ts @ post) (length pre + i) = Inr t"
proof -
  from assms have "tokenAt ts i = Some t" by (rule ensureToken_Inr)
  from tokenAt_window [OF this] show ?thesis by (simp add: ensureToken_def)
qed

lemma parseNumber_window:
  assumes "parseNumber ts i = Inr (v, j)"
  shows "parseNumber (pre @ ts @ post) (length pre + i) = Inr (v, length pre + j)"
proof -
  from assms obtain t where t: "tokenAt ts i = Some t"
    and s: "\<not> (isSpecial t \<and> tvalue t \<noteq> ''-'')"
    by (auto simp: parseNumber_def split: option.splits if_splits)
  show ?thesis
  proof (cases "isSpecial t")
    case True
    with assms t s obtain t1 n t2 where t1: "tokenAt ts (i + 1) = Some t1"
      and n: "Number_js (tvalue t1) = Some n"
      and e: "ensureToken ts (i + 1 + 1) = Inr t2"
      and r: "v = negate n" "j = i + 1 + 1"
      by (auto simp: parseNumber_def Let_def split: option.splits if_splits sum.splits)
    from tokenAt_window [OF t, of pre post] tokenAt_window [OF t1, of pre post]
      ensureToken_window [OF e, of pre post] s n r True
    show ?thesis
      by (simp add: parseNumber_def Let_def)
  next
    case False
    with assms t s obtain n t2 where n: "Number_js (tvalue t) = Some n"
      and e: "ensureToken ts (i + 1) = Inr t2"
      and r: "v = n" "j = i + 1"
      by (auto simp: parseNumber_def Let_def split: option.splits if_splits sum.splits)
    from tokenAt_window [OF t, of pre post] ensureToken_window [OF e, of pre post] s n r False
    show ?thesis
      by (simp add: parseNumber_def Let_def)
  qed
qed

lemma window_Suc:
  "tokenAt ts (Suc i) = Some t \<Longrightarrow> tokenAt (pre @ ts @ post) (Suc (length pre + i)) = Some t"
  "tokenAt ts (Suc (Suc i)) = Some t \<Longrightarrow>
     tokenAt (pre @ ts @ post) (Suc (Suc (length pre + i))) = Some t"
  "ensureToken ts (Suc i) = Inr t \<Longrightarrow>
     ensureToken (pre @ ts @ post) (Suc (length pre + i)) = Inr t"
  "ensureToken ts (Suc (Suc i)) = Inr t \<Longrightarrow>
     ensureToken (pre @ ts @ post) (Suc (Suc (length pre + i))) = Inr t"
  "parseNumber ts (Suc i) = Inr (v, j) \<Longrightarrow>
     parseNumber (pre @ ts @ post) (Suc (length pre + i)) = Inr (v, length pre + j)"
  using tokenAt_window [of ts "Suc i" t pre post] tokenAt_window [of ts "Suc (Suc i)" t pre post]
    ensureToken_window [of ts "Suc i" t pre post] ensureToken_window [of ts "Suc (Suc i)" t pre post]
    parseNumber_window [of ts "Suc i" v j pre post]
  by simp_all

lemma parseNumberOrDate_window:
  assumes "parseNumberOrDate ts first i = Inr (b, j)"
  shows "parseNumberOrDate (pre @ ts @ post) first (length pre + i) = Inr (b, length pre + j)"
  using assms unfolding parseNumberOrDate_def
  by (auto simp: tokenAt_window ensureToken_window parseNumber_window window_Suc
           split: sum.splits option.splits if_splits prod.splits)


lemma parseNumberOrDate_window_Suc:
  "parseNumberOrDate ts first (Suc i) = Inr (b, j) \<Longrightarrow>
     parseNumberOrDate (pre @ ts @ post) first (Suc (length pre + i)) = Inr (b, length pre + j)"
  using parseNumberOrDate_window [of ts first "Suc i" b j pre post] by simp

lemma literalLow_window:
  assumes "literalLow ts first i t = Inr (isDay, lo, i1)"
  shows "literalLow (pre @ ts @ post) first (length pre + i) t = Inr (isDay, lo, length pre + i1)"
  using assms unfolding literalLow_def
  by (auto simp: ensureToken_window parseNumberOrDate_window window_Suc
           split: sum.splits if_splits prod.splits)

lemma literalRange_window:
  assumes "literalRange ts first isDay lo i1 = Inr (v, j)"
  shows "literalRange (pre @ ts @ post) first isDay lo (length pre + i1) = Inr (v, length pre + j)"
proof -
  from assms obtain t1 where t1: "tokenAt ts i1 = Some t1"
    by (auto simp: literalRange_def split: option.splits)
  note t1' = tokenAt_window [OF t1, of pre post]
  show ?thesis
  proof (cases "tvalue t1 = ''-''")
    case False
    with assms t1 t1' show ?thesis
      by (auto simp: literalRange_def split: bound.splits)
  next
    case True
    with assms t1 obtain t2 where t2: "ensureToken ts (i1 + 1) = Inr t2"
      by (auto simp: literalRange_def split: sum.splits)
    from ensureToken_window [OF t2, of pre post]
    have t2': "ensureToken (pre @ ts @ post) (Suc (length pre + i1)) = Inr t2" by simp
    show ?thesis
    proof (cases "isDayKeyword t2 \<and> \<not> isDate lo")
      case d: True
      with assms t1 t1' True t2 t2' show ?thesis
        by (auto simp: literalRange_def split: bound.splits)
    next
      case d: False
      with assms t1 True t2 obtain hi i2
        where h: "parseNumberOrDate ts first (i1 + 1) = Inr (hi, i2)"
        by (auto simp: literalRange_def split: sum.splits)
      from parseNumberOrDate_window [OF h, of pre post]
      have h': "parseNumberOrDate (pre @ ts @ post) first (Suc (length pre + i1))
          = Inr (hi, length pre + i2)" by simp
      from assms t1 True t2 d h have r: "(case (lo, hi) of
             (MonthDay l, MonthDay h) \<Rightarrow> Inr (dates l h, i2)
           | (Num l, Num h) \<Rightarrow> Inr (if isDay then days l h else range l h, i2)
           | _ \<Rightarrow> Inl (SyntaxError ''Cannot mix numeric and date ranges.'' first)) = Inr (v, j)"
        by (auto simp: literalRange_def)
      then have "(case (lo, hi) of
             (MonthDay l, MonthDay h) \<Rightarrow> Inr (dates l h, length pre + i2)
           | (Num l, Num h) \<Rightarrow> Inr (if isDay then days l h else range l h, length pre + i2)
           | _ \<Rightarrow> Inl (SyntaxError ''Cannot mix numeric and date ranges.'' first))
           = Inr (v, length pre + j)"
        by (cases lo; cases hi) auto
      with t1' True t2' d h' show ?thesis
        by (auto simp: literalRange_def)
    qed
  qed
qed

lemma literalValue_window:
  assumes "literalValue ts first i = Inr (v, j)"
  shows "literalValue (pre @ ts @ post) first (length pre + i) = Inr (v, length pre + j)"
proof -
  from assms obtain t where t: "tokenAt ts i = Some t"
    by (auto simp: literalValue_def split: option.splits)
  note t' = tokenAt_window [OF t, of pre post]
  show ?thesis
  proof (cases "tvalue t = ''%''")
    case True
    with assms t t' show ?thesis by (auto simp: literalValue_def)
  next
    case False
    with assms t obtain isDay lo i1 where l: "literalLow ts first i t = Inr (isDay, lo, i1)"
      and r: "literalRange ts first isDay lo i1 = Inr (v, j)"
      by (auto simp: literalValue_def split: sum.splits prod.splits)
    from literalLow_window [OF l, of pre post] literalRange_window [OF r, of pre post] t' False
    show ?thesis by (simp add: literalValue_def)
  qed
qed

lemma modulusPart_window:
  assumes "modulusPart ts i = Inr (m, j)"
  shows "modulusPart (pre @ ts @ post) (length pre + i) = Inr (m, length pre + j)"
  using assms unfolding modulusPart_def
  by (auto simp: tokenAt_window ensureToken_window parseNumber_window window_Suc
           split: sum.splits option.splits if_splits prod.splits)

lemma literalArgument_window:
  assumes "literalArgument ts first excl i = Inr (a, j)"
  shows "literalArgument (pre @ ts @ post) first excl (length pre + i) = Inr (a, length pre + j)"
  using assms unfolding literalArgument_def
  by (auto simp: literalValue_window modulusPart_window split: sum.splits prod.splits)

lemma argumentStart_window:
  assumes "argumentStart ts i = Inr (first, excl, i1, t)"
  shows "argumentStart (pre @ ts @ post) (length pre + i) = Inr (first, excl, length pre + i1, t)"
  using assms unfolding argumentStart_def
  by (auto simp: ensureToken_window window_Suc split: sum.splits if_splits)

lemma expressionStart_window:
  assumes "expressionStart ts i = Inr cmd"
  shows "expressionStart (pre @ ts @ post) (length pre + i) = Inr cmd"
  using assms unfolding expressionStart_def
  by (auto simp: tokenAt_window window_Suc split: option.splits if_splits)

lemma expressionEnd_window:
  assumes "expressionEnd ts cmd ctx (j, args) = Inr r"
  shows "expressionEnd (pre @ ts @ post) cmd ctx (length pre + j, args)
         = Inr (length pre + fst r, snd r)"
  using assms unfolding expressionEnd_def
  by (auto simp: tokenAt_window split: option.splits if_splits)

lemma skipComma_window:
  assumes "tokenAt ts j = Some t"
  shows "skipComma (pre @ ts @ post) (length pre + j) = length pre + skipComma ts j"
  using assms tokenAt_window [OF assms, of pre post] by (simp add: skipComma_def)

lemma build_window:
  "buildArgument n ts i ctx = Some (Inr r) \<Longrightarrow>
     buildArgument n (pre @ ts @ post) (length pre + i) ctx = Some (Inr (length pre + fst r, snd r))"
  "buildExpression n ts i ctx = Some (Inr r) \<Longrightarrow>
     buildExpression n (pre @ ts @ post) (length pre + i) ctx
       = Some (Inr (length pre + fst r, snd r))"
  "buildArguments n ts i args = Some (Inr r) \<Longrightarrow> fst r < length ts \<Longrightarrow>
     buildArguments n (pre @ ts @ post) (length pre + i) args
       = Some (Inr (length pre + fst r, snd r))"
proof (induction n ts i ctx and n ts i ctx and n ts i args
       arbitrary: r and r and r rule: buildArgument_buildExpression_buildArguments.induct)
  case (1 tokens i ctx)
  then show ?case by simp
next
  case (2 n tokens i ctx)
  from "2.prems" obtain first excl i1 t
    where s: "argumentStart tokens i = Inr (first, excl, i1, t)"
    by (auto split: sum.splits)
  note s' = argumentStart_window [OF s, of pre post]
  consider (paren) "isSpecial t \<and> tvalue t = '')''"
    | (expr) "\<not> (isSpecial t \<and> tvalue t = '')'')" "\<not> (isSpecial t \<and> tvalue t = '','')"
        "isExpression t" "\<not> excl"
    | (lit) "\<not> (isSpecial t \<and> tvalue t = '')'')" "\<not> (isSpecial t \<and> tvalue t = '','')"
        "\<not> isExpression t"
    | (err) "\<not> (isSpecial t \<and> tvalue t = '')'')"
        "(isSpecial t \<and> tvalue t = '','') \<or> (isExpression t \<and> excl)"
    by blast
  then show ?case
  proof cases
    case paren
    with "2.prems" s s' show ?thesis by auto
  next
    case expr
    with "2.prems" s have be: "buildExpression n tokens i1 ctx = Some (Inr r)" by simp
    from "2.IH" [OF s refl refl refl _ _ _ _ be] expr
    have "buildExpression n (pre @ tokens @ post) (length pre + i1) ctx
       = Some (Inr (length pre + fst r, snd r))" by simp
    with s' expr show ?thesis by auto
  next
    case lit
    with "2.prems" s have "pushLiteral tokens first excl i1 ctx = Inr r" by simp
    then have "pushLiteral (pre @ tokens @ post) first excl (length pre + i1) ctx
        = Inr (length pre + fst r, snd r)"
      by (auto simp: pushLiteral_def literalArgument_window split: sum.splits prod.splits)
    with s' lit show ?thesis by auto
  next
    case err
    with "2.prems" s show ?thesis by (auto split: if_splits)
  qed
next
  case (3 tokens i ctx)
  then show ?case by simp
next
  case (4 n tokens i ctx)
  from "4.prems" obtain cmd where s: "expressionStart tokens i = Inr cmd"
    by (auto split: sum.splits)
  with "4.prems" obtain r' where a: "buildArguments n tokens (i + 2) [] = Some (Inr r')"
    and e: "expressionEnd tokens cmd ctx r' = Inr r"
    by (auto split: option.splits sum.splits)
  from e have lt: "fst r' < length tokens"
    by (auto simp: expressionEnd_def dest!: tokenAt_Some split: option.splits if_splits)
  from "4.IH" [OF s a lt]
  have a': "buildArguments n (pre @ tokens @ post) (length pre + (i + 2)) []
      = Some (Inr (length pre + fst r', snd r'))" .
  from e have e': "expressionEnd (pre @ tokens @ post) cmd ctx (length pre + fst r', snd r')
      = Inr (length pre + fst r, snd r)"
    using expressionEnd_window [of tokens cmd ctx "fst r'" "snd r'" r pre post] by simp
  from expressionStart_window [OF s, of pre post] a' e' show ?case
    by (simp add: add.assoc)
next
  case (5 tokens i args)
  then show ?case by simp
next
  case (6 n tokens i args)
  show ?case
  proof (cases "tokenAt tokens i")
    case None
    with "6.prems" show ?thesis by (auto simp: tokenAt_def split: if_splits)
  next
    case (Some t)
    note t' = tokenAt_window [OF Some, of pre post]
    show ?thesis
    proof (cases "tvalue t = '')''")
      case True
      with "6.prems" Some t' show ?thesis by auto
    next
      case False
      with "6.prems"(1) Some obtain r' where a: "buildArgument n tokens i args = Some (Inr r')"
        and l: "buildArguments n tokens (skipComma tokens (fst r')) (snd r') = Some (Inr r)"
        by (auto split: option.splits sum.splits)
      from build_cursor(3) [OF l] skipComma_ge [of "fst r'" tokens] "6.prems"(2)
      have "fst r' < length tokens" by simp
      then obtain c where c: "tokenAt tokens (fst r') = Some c" by (simp add: tokenAt_def)
      from "6.IH"(1) [OF Some False a]
      have a': "buildArgument n (pre @ tokens @ post) (length pre + i) args
          = Some (Inr (length pre + fst r', snd r'))" .
      from "6.IH"(2) [OF Some False a refl l "6.prems"(2)]
      have l': "buildArguments n (pre @ tokens @ post) (length pre + skipComma tokens (fst r'))
          (snd r') = Some (Inr (length pre + fst r, snd r))" .
      from t' False a' l' skipComma_window [OF c, of pre post] show ?thesis by simp
    qed
  qed
qed

lemma buildExpression_context:
  assumes "buildExpression n ts i [] = Some (Inr (j, [nd]))"
  shows "buildExpression n ts i ctx = Some (Inr (j, ctx @ [nd]))"
  using assms
  by (cases n) (auto simp: expressionEnd_def split: sum.splits option.splits if_splits)

lemma document_items:
  assumes "list_all itemOk items" and "pre = [] \<longrightarrow> \<not> startsWithComma items"
  shows "document (pre @ concat (map itemTokens items)) (length pre) ast
           (ast @ concat (map itemNodes items))"
  using assms
proof (induction items arbitrary: pre ast)
  case Nil
  then show ?case by (auto simp: tokenAt_def intro: document_end)
next
  case (Cons it items)
  let ?post = "concat (map itemTokens items)"
  show ?case
  proof (cases it)
    case (Comma c)
    with Cons.prems have c: "tvalue c = '',''" "\<not> isExpression c" and pre: "pre \<noteq> []"
      and ok: "list_all itemOk items"
      by auto
    have t: "tokenAt (pre @ c # ?post) (length pre) = Some c"
      by (simp add: tokenAt_def)
    from Cons.IH [OF ok, of "pre @ [c]" ast]
    have "document (pre @ c # ?post) (length pre + 1) ast (ast @ concat (map itemNodes items))"
      by simp
    from document_comma [OF t c(2) c(1) _ this] pre Comma show ?thesis by simp
  next
    case (Block e nd)
    with Cons.prems obtain t where t: "tokenAt e 0 = Some t" "isExpression t"
      and b: "buildExpression (3 * length e + 1) e 0 [] = Some (Inr (length e, [nd]))"
      and ok: "list_all itemOk items"
      by (auto split: option.splits)
    from t(1) have ne: "e \<noteq> []" by (auto simp: tokenAt_def)
    from tokenAt_window [OF t(1), of pre ?post]
    have t': "tokenAt (pre @ e @ ?post) (length pre) = Some t" by simp
    from build_window(2) [OF buildExpression_context [OF b, of ast], of pre ?post]
    have b': "buildExpression (3 * length e + 1) (pre @ e @ ?post) (length pre) ast
        = Some (Inr (length pre + length e, ast @ [nd]))" by simp
    from Cons.IH [OF ok, of "pre @ e" "ast @ [nd]"] ne
    have "document (pre @ e @ ?post) (length pre + length e) (ast @ [nd])
        (ast @ nd # concat (map itemNodes items))"
      by simp
    from document_expression [OF t' t(2) b' this] Block show ?thesis by simp
  qed
qed

lemma buildAbstractSyntaxTree_items:
  assumes "list_all itemOk items" and "\<not> startsWithComma items"
  shows "buildAbstractSyntaxTree (concat (map itemTokens items))
         = Some (Inr (concat (map itemNodes items)))"
proof -
  from document_items [OF assms(1), of "[]" "[]"] assms(2)
  have "document (concat (map itemTokens items)) 0 [] (concat (map itemNodes items))" by simp
  then show ?thesis
    unfolding buildAbstractSyntaxTree_def by (rule document_loop) simp
qed

lemma Token_new_special: "\<not> isExpression (Token_new i v True)"
  by (simp add: Token_new_def)

text \<open>
  An expression keyword is made of letters and is not \<open>Infinity\<close>: \<open>Number\<close> gives \<open>NaN\<close>
  on it.
\<close>

lemma expressionKeywords_letters:
  "list_all (\<lambda>k. k \<noteq> [] \<and> hd k \<noteq> CHR ''i''
              \<and> list_all (\<lambda>d. (97::nat) \<le> of_char d \<and> of_char d \<le> (122::nat)) k)
     expressionKeywords"
  by code_simp

lemma dropWhile_hd: "xs \<noteq> [] \<Longrightarrow> \<not> P (hd xs) \<Longrightarrow> dropWhile P xs = xs"
  by (cases xs) simp_all

lemma Number_js_letters:
  assumes "v \<noteq> []"
    and "\<forall>c \<in> set v. (65::nat) \<le> of_char c \<and> of_char c \<le> (122::nat)"
    and "hd v \<noteq> CHR ''I''"
  shows "Number_js v = None"
proof -
  from assms(1,2) have h: "(65::nat) \<le> of_char (hd v) \<and> of_char (hd v) \<le> (122::nat)"
    and l: "(65::nat) \<le> of_char (last v) \<and> of_char (last v) \<le> (122::nat)"
    by simp_all
  from h have h1: "\<not> strWhiteSpace (hd v)" "\<not> isDigit (hd v)"
    by (auto simp: strWhiteSpace_def isDigit_def)
  from h have h2: "hd v \<noteq> CHR ''0''" "hd v \<noteq> CHR ''+''" "hd v \<noteq> CHR ''-''" "hd v \<noteq> CHR ''.''"
    by auto
  from l have l1: "\<not> strWhiteSpace (last v)" by (auto simp: strWhiteSpace_def)
  have t: "trim v = v"
    using assms(1) h1(1) l1 by (simp add: trim_def dropWhile_hd hd_rev)
  have p: "take 2 v \<noteq> [CHR ''0'', c]" for c
    using assms(1) h2(1) by (cases v) auto
  have d: "takeWhile isDigit v = []" "dropWhile isDigit v = v"
    using assms(1) h1(2) by (cases v; simp)+
  have u: "strUnsignedDecimal v = None"
    using assms(1) h2(4) by (simp add: strUnsignedDecimal_def d Let_def)
  have i: "v \<noteq> ''Infinity''" using assms(3) by auto
  show ?thesis
    using assms(1) h2 p u i by (simp add: Number_js_def t Let_def)
qed

lemma Token_new_number:
  assumes "Number_js v \<noteq> None"
  shows "\<not> isExpression (Token_new i v False)"
proof -
  have "toLowerCase v \<notin> set expressionKeywords"
  proof
    assume "toLowerCase v \<in> set expressionKeywords"
    with expressionKeywords_letters
    have k: "toLowerCase v \<noteq> []" "hd (toLowerCase v) \<noteq> CHR ''i''"
      "\<forall>d \<in> set (toLowerCase v). (97::nat) \<le> of_char d \<and> of_char d \<le> (122::nat)"
      by (auto simp: list_all_iff)
    from k(1) have 1: "v \<noteq> []" by (simp add: toLowerCase_def)
    have 2: "(65::nat) \<le> of_char c \<and> of_char c \<le> (122::nat)" if "c \<in> set v" for c
    proof (cases "(65::nat) \<le> of_char c \<and> of_char c \<le> (90::nat)")
      case True
      then show ?thesis by simp
    next
      case False
      with that have "c \<in> set (toLowerCase v)"
        by (force simp: toLowerCase_def)
      with k(3) show ?thesis by auto
    qed
    have 3: "hd v \<noteq> CHR ''I''"
    proof
      assume "hd v = CHR ''I''"
      moreover have "char_of (105::nat) = CHR ''i''" by code_simp
      ultimately have "hd (toLowerCase v) = CHR ''i''"
        using 1 by (cases v) (simp_all add: toLowerCase_def)
      with k(2) show False by simp
    qed
    from Number_js_letters [OF 1 _ 3] 2 assms show False by blast
  qed
  then show ?thesis by (simp add: Token_new_def)
qed

text \<open>
  C2, as amended. \<open>buildAbstractSyntaxTree\<close> builds a tree exactly on the documents of
  the grammar \<open>document := (expression | ',')*\<close> whose first token is not a comma, and
  the tree is the list of the nodes of the expressions: every interleaving of well
  formed expressions and commas that does not start with a comma builds the list of
  the nodes of its expressions, without an error, and a comma after the first token is
  skipped, before or after any expression. At the top level, a token that is not an
  expression keyword and is not such a comma raises
  \<open>Unexpected token. Expected a expression.\<close>: so does a comma that is the first token,
  every other special token and every number.
\<close>

theorem top_level_documents:
  "(buildAbstractSyntaxTree tokens = Some (Inr ast) \<longleftrightarrow> document tokens 0 [] ast)
   \<and> (\<forall>items. list_all itemOk items \<and> \<not> startsWithComma items \<longrightarrow>
        buildAbstractSyntaxTree (concat (map itemTokens items)) =
        Some (Inr (concat (map itemNodes items))))
   \<and> (\<forall>n i tree t. tokenAt tokens i = Some t \<and> \<not> isExpression t \<and> 0 < i \<and> tvalue t = '','' \<longrightarrow>
        buildAbstractSyntaxTree_loop (Suc n) tokens i tree =
        buildAbstractSyntaxTree_loop n tokens (i + 1) tree)
   \<and> (\<forall>n i tree t. tokenAt tokens i = Some t \<and> \<not> isExpression t \<and> (i = 0 \<or> tvalue t \<noteq> '','') \<longrightarrow>
        buildAbstractSyntaxTree_loop (Suc n) tokens i tree =
        Some (Inl (SyntaxError ''Unexpected token. Expected a expression.'' t)))
   \<and> (\<forall>i v. \<not> isExpression (Token_new i v True))
   \<and> (\<forall>i v. Number_js v \<noteq> None \<longrightarrow> \<not> isExpression (Token_new i v False))"
proof -
  have 1: "buildAbstractSyntaxTree tokens = Some (Inr ast) \<longleftrightarrow> document tokens 0 [] ast"
  proof
    assume "buildAbstractSyntaxTree tokens = Some (Inr ast)"
    then show "document tokens 0 [] ast"
      unfolding buildAbstractSyntaxTree_def by (rule loop_document)
  next
    assume "document tokens 0 [] ast"
    then show "buildAbstractSyntaxTree tokens = Some (Inr ast)"
      unfolding buildAbstractSyntaxTree_def by (rule document_loop) simp
  qed
  have 2: "\<forall>n i tree t. tokenAt tokens i = Some t \<and> \<not> isExpression t \<and> 0 < i \<and> tvalue t = '','' \<longrightarrow>
        buildAbstractSyntaxTree_loop (Suc n) tokens i tree =
        buildAbstractSyntaxTree_loop n tokens (i + 1) tree"
    by simp
  have 3: "\<forall>n i tree t. tokenAt tokens i = Some t \<and> \<not> isExpression t \<and> (i = 0 \<or> tvalue t \<noteq> '','') \<longrightarrow>
        buildAbstractSyntaxTree_loop (Suc n) tokens i tree =
        Some (Inl (SyntaxError ''Unexpected token. Expected a expression.'' t))"
    by auto
  have 4: "\<forall>items. list_all itemOk items \<and> \<not> startsWithComma items \<longrightarrow>
        buildAbstractSyntaxTree (concat (map itemTokens items)) =
        Some (Inr (concat (map itemNodes items)))"
    using buildAbstractSyntaxTree_items by blast
  from 1 4 2 3 Token_new_special Token_new_number show ?thesis by (intro conjI) blast+
qed

text \<open>
  The tokens of \<open>hour(),,min()\<close> are a document, and the expressions \<open>hour()\<close> and
  \<open>min()\<close> with two commas between them build the two nodes.
\<close>

theorem top_level_documents_witness:
  "document (tokenize ''hour(),,min()'') 0 []
     [Expression ''hour'' [] (Token_new 0 ''hour'' False),
      Expression ''min'' [] (Token_new 8 ''min'' False)]
   \<and> buildAbstractSyntaxTree
        (tokenize ''hour()'' @ [Token_new 6 '','' True, Token_new 7 '','' True]
           @ tokenize ''min()'') =
       Some (Inr [Expression ''hour'' [] (Token_new 0 ''hour'' False),
                  Expression ''min'' [] (Token_new 0 ''min'' False)])"
proof -
  let ?items = "[Block (tokenize ''hour()'') (Expression ''hour'' [] (Token_new 0 ''hour'' False)),
                 Comma (Token_new 6 '','' True), Comma (Token_new 7 '','' True),
                 Block (tokenize ''min()'') (Expression ''min'' [] (Token_new 0 ''min'' False))]"
  have "buildAbstractSyntaxTree (tokenize ''hour(),,min()'') =
      Some (Inr [Expression ''hour'' [] (Token_new 0 ''hour'' False),
                 Expression ''min'' [] (Token_new 8 ''min'' False)])"
    by code_simp
  with top_level_documents [of "tokenize ''hour(),,min()''"]
  have a: "document (tokenize ''hour(),,min()'') 0 []
     [Expression ''hour'' [] (Token_new 0 ''hour'' False),
      Expression ''min'' [] (Token_new 8 ''min'' False)]"
    by blast
  have ok: "list_all itemOk ?items" by code_simp
  have "\<not> startsWithComma ?items" by simp
  with ok top_level_documents [of "[]" "[]"]
  have "buildAbstractSyntaxTree (concat (map itemTokens ?items)) =
        Some (Inr (concat (map itemNodes ?items)))"
    by blast
  then have b: "buildAbstractSyntaxTree
        (tokenize ''hour()'' @ [Token_new 6 '','' True, Token_new 7 '','' True]
           @ tokenize ''min()'') =
       Some (Inr [Expression ''hour'' [] (Token_new 0 ''hour'' False),
                  Expression ''min'' [] (Token_new 0 ''min'' False)])"
    by simp
  from a b show ?thesis ..
qed

text \<open>
  C2 as stated fails for a comma before the first expression: the loop skips a comma
  only when \<open>i > 0\<close>.
\<close>

theorem top_level_documents_counterexample:
  "buildAbstractSyntaxTree (tokenize '',hour()'') =
     Some (Inl (SyntaxError ''Unexpected token. Expected a expression.'' (Token_new 0 '','' True)))"
  by code_simp

subsection \<open>An exclusion mark before the closing parenthesis\<close>

text \<open>
  C10. When the argument list of an expression is \<open>!\<close> followed by the closing
  parenthesis, \<open>buildArgument\<close> consumes the \<open>!\<close> and returns at the parenthesis with
  the context as it was, and \<open>buildExpression\<close> pushes the node of the expression
  without arguments, which is the node it pushes for the same name token followed by
  an empty argument list. So \<open>hour(!)\<close> has the tree of \<open>hour()\<close> and compiles as it does.
\<close>

theorem exclusion_before_parenthesis:
  assumes "tokenAt tokens i = Some e"
    and "tokenAt tokens (i + 1) = Some p" and "tvalue p = ''(''"
    and "tokenAt tokens (i + 2) = Some b" and "tvalue b = ''!''"
    and "tokenAt tokens (i + 3) = Some c" and "isSpecial c" and "tvalue c = '')''"
  shows "buildArgument (Suc n) tokens (i + 2) args = Some (Inr (i + 3, args))
       \<and> buildExpression (Suc (Suc (Suc n))) tokens i ctx =
           Some (Inr (i + 4, ctx @ [Expression (tvalue e) [] e]))
       \<and> (\<forall>tokens' i' c'.
            tokenAt tokens' i' = Some e \<and> tokenAt tokens' (i' + 1) = Some p \<and>
            tokenAt tokens' (i' + 2) = Some c' \<and> tvalue c' = '')'' \<longrightarrow>
            buildExpression (Suc (Suc n)) tokens' i' ctx =
              Some (Inr (i' + 3, ctx @ [Expression (tvalue e) [] e])))
       \<and> buildAbstractSyntaxTree (tokenize ''hour(!)'') =
           Some (Inr [Expression ''hour'' [] (Token_new 0 ''hour'' False)])
       \<and> buildAbstractSyntaxTree (tokenize ''hour()'') =
           Some (Inr [Expression ''hour'' [] (Token_new 0 ''hour'' False)])
       \<and> scheduleProperties ''hour(!)'' =
           Some (Inr [[((Seconds, False), [Range_new 0 0]), ((Minutes, False), [Range_new 0 0]),
                       ((Hours, False), [Range_new 0 23])]])
       \<and> scheduleProperties ''hour()'' =
           Some (Inr [[((Seconds, False), [Range_new 0 0]), ((Minutes, False), [Range_new 0 0]),
                       ((Hours, False), [Range_new 0 23])]])"
proof -
  have s: "argumentStart tokens (i + 2) = Inr (b, True, i + 3, c)"
    using assms(4,5,6) by (simp add: argumentStart_def ensureToken_def numeral_3_eq_3)
  have 1: "buildArgument (Suc n) tokens (i + 2) args = Some (Inr (i + 3, args))" for n args
    using s assms(7,8) by simp
  have k: "skipComma tokens (i + 3) = i + 3"
    using assms(6,8) by (simp add: skipComma_def)
  have l: "buildArguments (Suc (Suc n)) tokens (i + 2) [] = Some (Inr (i + 3, []))"
    using assms(4,5,6,8) 1 [of n "[]"] k by simp
  have es: "expressionStart tokens i = Inr e"
    using assms(1,2,3) by (simp add: expressionStart_def)
  have ee: "expressionEnd tokens e ctx (i + 3, []) = Inr (i + 4, ctx @ [Expression (tvalue e) [] e])"
    using assms(6,8) by (simp add: expressionEnd_def)
  have 2: "buildExpression (Suc (Suc (Suc n))) tokens i ctx =
           Some (Inr (i + 4, ctx @ [Expression (tvalue e) [] e]))"
    using es l ee by simp
  have 3: "buildExpression (Suc (Suc n)) tokens' i' ctx =
              Some (Inr (i' + 3, ctx @ [Expression (tvalue e) [] e]))"
    if "tokenAt tokens' i' = Some e \<and> tokenAt tokens' (i' + 1) = Some p \<and>
            tokenAt tokens' (i' + 2) = Some c' \<and> tvalue c' = '')''" for tokens' i' c'
    using that assms(3) by (simp add: expressionStart_def expressionEnd_def)
  have 4: "buildAbstractSyntaxTree (tokenize ''hour(!)'') =
           Some (Inr [Expression ''hour'' [] (Token_new 0 ''hour'' False)])"
    "buildAbstractSyntaxTree (tokenize ''hour()'') =
           Some (Inr [Expression ''hour'' [] (Token_new 0 ''hour'' False)])"
    by code_simp+
  have 5: "scheduleProperties ''hour(!)'' =
           Some (Inr [[((Seconds, False), [Range_new 0 0]), ((Minutes, False), [Range_new 0 0]),
                       ((Hours, False), [Range_new 0 23])]])"
    "scheduleProperties ''hour()'' =
           Some (Inr [[((Seconds, False), [Range_new 0 0]), ((Minutes, False), [Range_new 0 0]),
                       ((Hours, False), [Range_new 0 23])]])"
    by code_simp+
  from 1 2 3 4 5 show ?thesis by (intro conjI) blast+
qed

text \<open>The four tokens of \<open>hour(!)\<close>.\<close>

theorem exclusion_before_parenthesis_witness:
  "buildArgument (Suc 0) (tokenize ''hour(!)'') 2 [] = Some (Inr (3, []))
   \<and> buildExpression (Suc (Suc (Suc 0))) (tokenize ''hour(!)'') 0 [] =
       Some (Inr (4, [Expression ''hour'' [] (Token_new 0 ''hour'' False)]))"
proof -
  have t: "tokenAt (tokenize ''hour(!)'') 0 = Some (Token_new 0 ''hour'' False)"
    "tokenAt (tokenize ''hour(!)'') (0 + 1) = Some (Token_new 4 ''('' True)"
    "tokenAt (tokenize ''hour(!)'') (0 + 2) = Some (Token_new 5 ''!'' True)"
    "tokenAt (tokenize ''hour(!)'') (0 + 3) = Some (Token_new 6 '')'' True)"
    by code_simp+
  have v: "tvalue (Token_new 4 ''('' True) = ''(''" "tvalue (Token_new 5 ''!'' True) = ''!''"
    "isSpecial (Token_new 6 '')'' True)" "tvalue (Token_new 6 '')'' True) = '')''"
    by (simp_all add: Token_new_def)
  have n: "tvalue (Token_new 0 ''hour'' False) = ''hour''"
    by (simp add: Token_new_def)
  note th = exclusion_before_parenthesis [OF t(1) t(2) v(1) t(3) v(2) t(4) v(3) v(4),
      of 0 "[]" "[]"]
  from th [THEN conjunct1] th [THEN conjunct2, THEN conjunct1]
  show ?thesis by (simp only: add_0 n append_Nil simp_thms)
qed

subsection \<open>The rules of a schedule\<close>

lemma compileGroup_seconds:
  assumes "compileGroup expressions = Inr (Some rule)"
  shows "rule (Seconds, False) \<noteq> None \<or> rule (Seconds, True) \<noteq> None"
proof -
  from compileGroup_Some [OF assms] obtain r where "rule = impliedValues r" by blast
  then show ?thesis by (auto simp: impliedValues_def)
qed

lemma compile_loop_rules:
  assumes "compile_loop ast st = Inr st'"
    and "\<forall>rule \<in> set (fst st). rule (Seconds, False) \<noteq> None \<or> rule (Seconds, True) \<noteq> None"
  shows "(\<forall>rule \<in> set (fst st'). rule (Seconds, False) \<noteq> None \<or> rule (Seconds, True) \<noteq> None)
       \<and> length (fst st') + length (snd st') = length (fst st) + length (snd st) + length ast
       \<and> (\<forall>tok. Expression ''group'' [] tok \<notin> set ast)"
  using assms
proof (induction ast st arbitrary: st' rule: compile_loop.induct)
  case (1 st)
  then show ?case by simp
next
  case (2 a ast st)
  then show ?case by simp
next
  case (3 nm args tok ast st)
  show ?case
  proof (cases "nm = ''group''")
    case True
    with "3.prems"(1) obtain rule where g: "compileGroup args = Inr (Some rule)"
      and l: "compile_loop ast (fst st @ [rule], snd st) = Inr st'"
      by (auto split: sum.splits option.splits)
    from g have ne: "args \<noteq> []" by (auto simp: compileGroup_def)
    from compileGroup_seconds [OF g] "3.prems"(2)
    have "\<forall>rule \<in> set (fst (fst st @ [rule], snd st)).
        rule (Seconds, False) \<noteq> None \<or> rule (Seconds, True) \<noteq> None"
      by auto
    from "3.IH"(1) [OF True g refl l this] ne show ?thesis by auto
  next
    case False
    with "3.prems"(1)
    have l: "compile_loop ast (fst st, snd st @ [Expression nm args tok]) = Inr st'" by simp
    from "3.IH"(2) [OF False l] "3.prems"(2) False show ?thesis by auto
  qed
qed

lemma compile_rules:
  assumes "compile ast = Inr rules"
  shows "(\<forall>rule \<in> set rules. rule (Seconds, False) \<noteq> None \<or> rule (Seconds, True) \<noteq> None)
       \<and> (rules = [] \<longleftrightarrow> ast = [])
       \<and> (\<forall>tok. Expression ''group'' [] tok \<notin> set ast)"
proof -
  from assms obtain rs gs where l: "compile_loop ast ([], []) = Inr (rs, gs)"
    by (auto simp: compile_def split: sum.splits prod.splits)
  from compile_loop_rules [OF l]
  have inv: "\<forall>rule \<in> set rs. rule (Seconds, False) \<noteq> None \<or> rule (Seconds, True) \<noteq> None"
    and len: "length rs + length gs = length ast"
    and grp: "\<forall>tok. Expression ''group'' [] tok \<notin> set ast"
    by simp_all
  show ?thesis
  proof (cases "gs = []")
    case True
    with assms l have "rules = rs" by (simp add: compile_def)
    with inv len grp True show ?thesis by auto
  next
    case False
    with assms l obtain rule where g: "compileGroup gs = Inr (Some rule)"
      and r: "rules = rs @ [rule]"
      by (auto simp: compile_def split: sum.splits option.splits)
    from compileGroup_seconds [OF g] inv r len grp False show ?thesis by auto
  qed
qed

lemma buildExpression_pushes:
  "buildExpression n tokens i ast = Some (Inr (j, ast')) \<Longrightarrow> length ast' = Suc (length ast)"
  by (cases n) (auto simp: expressionEnd_def split: sum.splits option.splits if_splits)

lemma document_length:
  "document tokens i ast ast' \<Longrightarrow>
     length ast \<le> length ast' \<and> (i = 0 \<and> tokens \<noteq> [] \<longrightarrow> length ast < length ast')"
proof (induction rule: document.induct)
  case (document_end i ast)
  then show ?case by (cases i) (auto simp: tokenAt_def split: if_splits)
next
  case (document_comma i t ast ast')
  then show ?case by simp
next
  case (document_expression i t n ast j ast1 ast')
  from buildExpression_pushes [OF document_expression.hyps(3)] document_expression.IH
  show ?case by simp
qed

lemma buildAbstractSyntaxTree_empty:
  assumes "buildAbstractSyntaxTree tokens = Some (Inr ast)"
  shows "ast = [] \<longleftrightarrow> tokens = []"
proof
  assume "ast = []"
  from assms have "document tokens 0 [] ast"
    unfolding buildAbstractSyntaxTree_def by (rule loop_document)
  from document_length [OF this] \<open>ast = []\<close> show "tokens = []" by auto
next
  assume "tokens = []"
  with assms show "ast = []"
    by (simp add: buildAbstractSyntaxTree_def tokenAt_def)
qed

text \<open>
  C1, as amended. For every text the three stages return, and when they return rules
  without an error, every rule has a field set (\<open>seconds\<close> or \<open>secondsExclude\<close> at
  least), and the list of the rules is empty exactly when the text holds no token: a
  text without a token returns the empty list of rules, and no error is raised. A tree
  that compiles holds no \<open>group\<close> with an empty argument list: such a group raises
  \<open>No rules in schedule.\<close>
\<close>

theorem rules_have_fields:
  "(\<exists>r. schedule str = Some r)
   \<and> (\<forall>rules. schedule str = Some (Inr rules) \<longrightarrow>
        (\<forall>rule \<in> set rules. rule (Seconds, False) \<noteq> None \<or> rule (Seconds, True) \<noteq> None)
        \<and> (rules = [] \<longleftrightarrow> tokenize str = []))
   \<and> (tokenize str = [] \<longrightarrow> schedule str = Some (Inr []))
   \<and> (\<forall>ast rules tok. compile ast = Inr rules \<longrightarrow> Expression ''group'' [] tok \<notin> set ast)
   \<and> (\<forall>tok ast st. compile_loop (Expression ''group'' [] tok # ast) st =
        Inl (SyntaxError ''No rules in schedule.'' tok))
   \<and> scheduleProperties ''group()'' =
       Some (Inl (SyntaxError ''No rules in schedule.'' (Token_new 0 ''group'' False)))"
proof -
  have 2: "(\<forall>rule \<in> set rules. rule (Seconds, False) \<noteq> None \<or> rule (Seconds, True) \<noteq> None)
        \<and> (rules = [] \<longleftrightarrow> tokenize str = [])"
    if "schedule str = Some (Inr rules)" for rules
  proof -
    from that obtain ast where a: "buildAbstractSyntaxTree (tokenize str) = Some (Inr ast)"
      and c: "compile ast = Inr rules"
      by (auto simp: schedule_def split: option.splits sum.splits)
    from compile_rules [OF c] buildAbstractSyntaxTree_empty [OF a] show ?thesis by simp
  qed
  have 3: "\<forall>ast rules tok. compile ast = Inr rules \<longrightarrow> Expression ''group'' [] tok \<notin> set ast"
    using compile_rules by blast
  have 4: "\<forall>tok ast st. compile_loop (Expression ''group'' [] tok # ast) st =
        Inl (SyntaxError ''No rules in schedule.'' tok)"
    by (simp add: compileGroup_def)
  have 5: "scheduleProperties ''group()'' =
       Some (Inl (SyntaxError ''No rules in schedule.'' (Token_new 0 ''group'' False)))"
    by code_simp
  have 6: "tokenize str = [] \<longrightarrow> schedule str = Some (Inr [])"
    by (simp add: schedule_def buildAbstractSyntaxTree_def tokenAt_def compile_def)
  from schedule_returns [of str] 2 6 3 4 5 show ?thesis by (intro conjI) blast+
qed

text \<open>The rule of \<open>min(5)\<close>.\<close>

theorem rules_have_fields_witness:
  "\<exists>rule. schedule ''min(5)'' = Some (Inr [rule]) \<and> rule (Seconds, False) = Some [Range_new 0 0]"
proof -
  have "case schedule ''min(5)'' of
          Some (Inr [rule]) \<Rightarrow> rule (Seconds, False) = Some [Range_new 0 0] \<and> rule (Seconds, True) = None
        | _ \<Rightarrow> False"
    by code_simp
  then obtain rule where s: "schedule ''min(5)'' = Some (Inr [rule])"
    and r: "rule (Seconds, False) = Some [Range_new 0 0]" "rule (Seconds, True) = None"
    by (auto split: option.splits sum.splits list.splits)
  from rules_have_fields [of "''min(5)''"] s
  have "rule (Seconds, False) \<noteq> None \<or> rule (Seconds, True) \<noteq> None" by simp
  with r s show ?thesis by simp
qed

text \<open>
  C1 as stated fails for a text without expressions: \<open>compile\<close> skips the implicit
  group when no top-level expression was collected, and returns the empty list.
\<close>

theorem rules_have_fields_counterexample:
  "scheduleProperties '''' = Some (Inr []) \<and> scheduleProperties '' '' = Some (Inr [])"
  by code_simp

end
